theory Spec2Isabelle
  imports Main "HOL-Library.Word"
begin

section \<open>Data model (model.go)\<close>

text \<open>
  Go's \<open>interface{}\<close> values that travel through the proxy: decoded JSON documents,
  the two map literals built by the demultiplexer and the error synthesizer, and the
  pointer to an \<open>OpenAiError\<close> taken from a result line.
\<close>

record OpenAiError =
  Code :: string
  Message :: string
  Type :: string
  Param :: string
  Line :: "int option"

datatype any =
    Nil
  | Bool bool
  | Num int
  | Str string
  | Arr "any list"
  | MapSI "(string \<times> any) list"     \<comment> \<open>\<open>map[string]interface{}\<close>\<close>
  | MapSS "(string \<times> string) list"  \<comment> \<open>\<open>map[string]string\<close>\<close>
  | ErrPtr "OpenAiError option"       \<comment> \<open>\<open>*OpenAiError\<close>\<close>

type_synonym bytes = string
type_synonym error = string

record ProxyRequest =
  CustomID :: string
  Method :: string
  Endpoint :: string
  Body :: any

record BatchResponse =
  ID :: string
  Status :: string
  OutputFileID :: "string option"
  ErrorFileID :: "string option"
  Error :: "OpenAiError option"

text \<open>\<open>BatchRequestResponse\<close>: the fields of a result line that the core reads.\<close>

record BatchRequestResponse =
  rr_CustomID :: string
  rr_Body :: any                      \<comment> \<open>\<open>Response.Body\<close>\<close>
  rr_Error :: "OpenAiError option"

record batchKey =
  key_auth :: string      \<comment> \<open>\<open>auth\<close>\<close>
  key_endpoint :: string  \<comment> \<open>\<open>endpoint\<close>\<close>

section \<open>Poller (pollBatchStatus)\<close>

text \<open>Durations are Go's \<open>time.Duration\<close>: a count of nanoseconds.\<close>

definition Millisecond :: int where
  "Millisecond = 1000000"

definition Second :: int where
  "Second = 1000 * Millisecond"

definition SleepDuration :: int where
  "SleepDuration = 5 * Second"

datatype poll_event = Sleep int | Fetch

text \<open>
  The \<open>switch\<close> of \<open>pollBatchStatus\<close>: the four statuses that make it return.
\<close>

definition final_status :: "string \<Rightarrow> bool" where
  "final_status st \<longleftrightarrow>
     st = ''completed'' \<or> st = ''failed'' \<or> st = ''expired'' \<or> st = ''cancelled''"

text \<open>
  \<open>pollBatchStatus\<close> against an upstream whose successive answers to
  \<open>getBatchResponse\<close> are the elements of the list (\<open>Inl\<close> an error, \<open>Inr\<close> the batch
  document). The result is the sequence of sleeps and fetches performed and the value
  returned; \<open>None\<close> when the poller is at its loop head again after the last listed
  answer, so the loop that need not end is cut where the knowledge of the upstream ends.
\<close>

fun pollBatchStatus :: "(error + BatchResponse) list \<Rightarrow>
    poll_event list \<times> (error + BatchResponse) option" where
  "pollBatchStatus [] = ([], None)"
| "pollBatchStatus (Inl err # rs) = ([Sleep SleepDuration, Fetch], Some (Inl err))"
| "pollBatchStatus (Inr batchResp # rs) =
     (if final_status (Status batchResp)
      then ([Sleep SleepDuration, Fetch], Some (Inr batchResp))
      else (case pollBatchStatus rs of (tr, res) \<Rightarrow>
              ([Sleep SleepDuration, Fetch, Sleep SleepDuration] @ tr, res)))"

text \<open>
  The cadence in the words of the specification: one sleep of \<open>SleepDuration\<close> before
  each of \<open>n\<close> fetches.
\<close>

definition spec_cadence :: "nat \<Rightarrow> poll_event list" where
  "spec_cadence n = concat (replicate n [Sleep SleepDuration, Fetch])"

text \<open>What the code does for \<open>k\<close> non-final answers followed by the answer that ends it.\<close>

definition code_cadence :: "nat \<Rightarrow> poll_event list" where
  "code_cadence k =
     concat (replicate k [Sleep SleepDuration, Fetch, Sleep SleepDuration])
     @ [Sleep SleepDuration, Fetch]"

definition ends_polling :: "error + BatchResponse \<Rightarrow> bool" where
  "ends_polling r = (case r of Inl err \<Rightarrow> True | Inr b \<Rightarrow> final_status (Status b))"

definition batch_with_status :: "string \<Rightarrow> BatchResponse" where
  "batch_with_status st =
     \<lparr>ID = ''batch_1'', Status = st, OutputFileID = None, ErrorFileID = None, Error = None\<rparr>"

section \<open>Channels\<close>

text \<open>
  A Go channel: its capacity, the values buffered in it, whether it is closed, and the
  goroutine parked in a receive on it. Each channel of this program is received from by
  one goroutine, so the queue of parked receivers is one slot: \<open>Parked\<close> while that
  goroutine waits in its receive, \<open>Got v\<close> once the receive has returned \<open>v\<close>.
\<close>

datatype 'a recv_state = NotWaiting | Parked | Got 'a

record 'a chan =
  chan_cap :: nat
  chan_buf :: "'a list"
  chan_closed :: bool
  chan_recvq :: "'a recv_state"

definition make_chan :: "nat \<Rightarrow> 'a chan" where
  "make_chan n = \<lparr>chan_cap = n, chan_buf = [], chan_closed = False, chan_recvq = NotWaiting\<rparr>"

datatype 'a send_result = Sent "'a chan" | SendBlocks | SendPanics

text \<open>
  \<open>ch <- v\<close>: panics on a closed channel; hands \<open>v\<close> to a parked receiver; else
  buffers \<open>v\<close> when there is room; else the sender blocks.
\<close>

definition chan_send :: "'a chan \<Rightarrow> 'a \<Rightarrow> 'a send_result" where
  "chan_send ch v =
     (if chan_closed ch then SendPanics
      else if chan_recvq ch = Parked then Sent (ch\<lparr>chan_recvq := Got v\<rparr>)
      else if length (chan_buf ch) < chan_cap ch then Sent (ch\<lparr>chan_buf := chan_buf ch @ [v]\<rparr>)
      else SendBlocks)"

text \<open>
  \<open>close(ch)\<close>: panics (\<open>None\<close>) on a closed channel; a parked receiver wakes up with
  the zero value.
\<close>

definition chan_close :: "'a \<Rightarrow> 'a chan \<Rightarrow> 'a chan option" where
  "chan_close zero ch =
     (if chan_closed ch then None
      else Some (ch\<lparr>chan_closed := True,
                    chan_recvq := (if chan_recvq ch = Parked then Got zero else chan_recvq ch)\<rparr>))"

text \<open>
  \<open><-ch\<close> by the channel's receiver: takes the oldest buffered value; on an empty closed
  channel returns the zero value; else parks.
\<close>

definition chan_recv :: "'a \<Rightarrow> 'a chan \<Rightarrow> 'a chan" where
  "chan_recv zero ch =
     (case chan_buf ch of
        v # vs \<Rightarrow> ch\<lparr>chan_buf := vs, chan_recvq := Got v\<rparr>
      | [] \<Rightarrow> if chan_closed ch then ch\<lparr>chan_recvq := Got zero\<rparr> else ch\<lparr>chan_recvq := Parked\<rparr>)"

section \<open>Statistics (stats.go)\<close>

text \<open>
  The seven \<open>atomic.Int64\<close> counters; \<open>Add(1)\<close> wraps. The timing samples appended by
  \<open>trackRequestEnd\<close> and \<open>trackBatchEnd\<close> are left out: nothing below reads them.
\<close>

record Stats =
  requestsTotal :: "64 word"
  requestsSuccessful :: "64 word"
  requestsFailed :: "64 word"
  batchesTotal :: "64 word"
  batchesSuccessful :: "64 word"
  batchesFailed :: "64 word"
  synthesizedErrResponses :: "64 word"

definition stats0 :: Stats where
  "stats0 = \<lparr>requestsTotal = 0, requestsSuccessful = 0, requestsFailed = 0,
     batchesTotal = 0, batchesSuccessful = 0, batchesFailed = 0, synthesizedErrResponses = 0\<rparr>"

definition trackRequestStart :: "Stats \<Rightarrow> Stats" where
  "trackRequestStart st = st\<lparr>requestsTotal := requestsTotal st + 1\<rparr>"

definition trackRequestEnd :: "bool \<Rightarrow> Stats \<Rightarrow> Stats" where
  "trackRequestEnd success st =
     (if success then st\<lparr>requestsSuccessful := requestsSuccessful st + 1\<rparr>
      else st\<lparr>requestsFailed := requestsFailed st + 1\<rparr>)"

definition trackBatchStart :: "Stats \<Rightarrow> Stats" where
  "trackBatchStart st = st\<lparr>batchesTotal := batchesTotal st + 1\<rparr>"

definition trackBatchEnd :: "bool \<Rightarrow> Stats \<Rightarrow> Stats" where
  "trackBatchEnd success st =
     (if success then st\<lparr>batchesSuccessful := batchesSuccessful st + 1\<rparr>
      else st\<lparr>batchesFailed := batchesFailed st + 1\<rparr>)"

definition trackSynthesizedErrorResponse :: "Stats \<Rightarrow> Stats" where
  "trackSynthesizedErrorResponse st =
     st\<lparr>synthesizedErrResponses := synthesizedErrResponses st + 1\<rparr>"

text \<open>The counters of the document returned by \<open>getStats\<close> (\<open>Load\<close> reads an \<open>int64\<close>).\<close>

record StatsDoc =
  Requests_Total :: int
  Requests_Successful :: int
  Requests_Failed :: int
  Requests_SynthesizedErrResponses :: int
  Batches_Total :: int
  Batches_Successful :: int
  Batches_Failed :: int

definition getStats :: "Stats \<Rightarrow> StatsDoc" where
  "getStats st =
     \<lparr>Requests_Total = sint (requestsTotal st),
      Requests_Successful = sint (requestsSuccessful st),
      Requests_Failed = sint (requestsFailed st),
      Requests_SynthesizedErrResponses = sint (synthesizedErrResponses st),
      Batches_Total = sint (batchesTotal st),
      Batches_Successful = sint (batchesSuccessful st),
      Batches_Failed = sint (batchesFailed st)\<rparr>"

section \<open>Batching worker (processUploadAndCreateBatch)\<close>

text \<open>
  The three settings read by the worker, as set from the command line. Go's \<open>int\<close> has
  64 bits here, and \<open>maxBatchMb * 1024 * 1024\<close> wraps; the counters of the buffer count
  requests and bytes held in memory and stay far from the limit, so they are integers.
\<close>

record config =
  maxHoldBatchSend :: int
  maxBatchSize :: int
  maxBatchMb :: int

definition default_config :: config where
  "default_config = \<lparr>maxHoldBatchSend = 4 * Second, maxBatchSize = 1000, maxBatchMb = 25\<rparr>"

definition maxBatchBytes :: "config \<Rightarrow> int" where
  "maxBatchBytes cfg = sint (word_of_int (maxBatchMb cfg) * 1024 * 1024 :: 64 word)"

text \<open>The local variables of the worker: the batching buffer.\<close>

record worker_local =
  batch :: "ProxyRequest list"
  jsonlData :: bytes
  batchSize :: int
  batchBytes :: int
  batchStart :: int

text \<open>
  The five assignments after each hand-over to \<open>processBatch\<close>, and the initial values
  of the variables; \<open>now\<close> is the value of \<open>time.Now()\<close>.
\<close>

definition reset :: "int \<Rightarrow> worker_local" where
  "reset now = \<lparr>batch = [], jsonlData = [], batchSize = 0, batchBytes = 0, batchStart = now\<rparr>"

text \<open>
  The case \<open>req := <-reqToBeBatched\<close>. \<open>marshal\<close> stands for \<open>json.Marshal\<close>. The first
  component of the result is the buffer handed to \<open>processBatch\<close>, if any.
\<close>

definition recv_request :: "config \<Rightarrow> (ProxyRequest \<Rightarrow> error + bytes) \<Rightarrow> int \<Rightarrow> ProxyRequest \<Rightarrow>
    worker_local \<Rightarrow> worker_local option \<times> worker_local" where
  "recv_request cfg marshal now req w =
     (case marshal req of
        Inl err \<Rightarrow> (None, w)
      | Inr js \<Rightarrow>
          (let jsonReq = js @ [CHR 0x0A];
               flush = ((batchSize w \<ge> maxBatchSize cfg
                         \<or> batchBytes w + int (length jsonReq) > maxBatchBytes cfg
                         \<or> (length (batch w) = 0 \<and> int (length jsonReq) > maxBatchBytes cfg))
                        \<and> length (batch w) > 0);
               w1 = (if flush then reset now else w)
           in ((if flush then Some w else None),
               w1\<lparr>batch := batch w1 @ [req],
                  jsonlData := jsonlData w1 @ jsonReq,
                  batchSize := batchSize w1 + 1,
                  batchBytes := batchBytes w1 + int (length jsonReq)\<rparr>)))"

text \<open>The case \<open><-time.After(200 * time.Millisecond)\<close>; \<open>now - batchStart\<close> is \<open>time.Since(batchStart)\<close>.\<close>

definition tick :: "config \<Rightarrow> int \<Rightarrow> worker_local \<Rightarrow> worker_local option \<times> worker_local" where
  "tick cfg now w =
     (if length (batch w) > 0
         \<and> (now - batchStart w \<ge> maxHoldBatchSend cfg \<or> batchSize w \<ge> maxBatchSize cfg)
      then (Some w, reset now) else (None, w))"

text \<open>The case \<open><-shutdownChan\<close>: the buffer handed over before the worker returns.\<close>

definition final_flush :: "worker_local \<Rightarrow> worker_local option" where
  "final_flush w = (if length (batch w) > 0 then Some w else None)"

text \<open>
  A run of the worker's loop: the cases its \<open>select\<close> takes, in order, each with the
  time at which it is taken. The result lists the buffers handed to \<open>processBatch\<close>.
\<close>

datatype worker_event = EvRequest int ProxyRequest | EvTick int | EvShutdown

fun opt_list :: "'a option \<Rightarrow> 'a list" where
  "opt_list None = []"
| "opt_list (Some x) = [x]"

fun worker_run :: "config \<Rightarrow> (ProxyRequest \<Rightarrow> error + bytes) \<Rightarrow> worker_event list \<Rightarrow>
    worker_local \<Rightarrow> worker_local list" where
  "worker_run cfg marshal [] w = []"
| "worker_run cfg marshal (EvRequest now req # es) w =
     opt_list (fst (recv_request cfg marshal now req w))
     @ worker_run cfg marshal es (snd (recv_request cfg marshal now req w))"
| "worker_run cfg marshal (EvTick now # es) w =
     opt_list (fst (tick cfg now w)) @ worker_run cfg marshal es (snd (tick cfg now w))"
| "worker_run cfg marshal (EvShutdown # es) w = opt_list (final_flush w)"

text \<open>
  The same loop on a clock. \<open>arrivals\<close> are the envelopes with the times at which they
  are offered to the lane, in order; the loop body takes no time. An iteration that
  enters its \<open>select\<close> at \<open>now\<close> creates a timer for \<open>now + 200 ms\<close>: it takes the receive
  case when the next envelope is offered before the timer fires, and the timer case
  otherwise. The first argument bounds the number of iterations. The result lists the
  buffers handed over, each with the time of the hand-over, then the time and the
  buffer at the end.
\<close>

definition tickInterval :: int where
  "tickInterval = 200 * Millisecond"

fun worker_clock :: "nat \<Rightarrow> config \<Rightarrow> (ProxyRequest \<Rightarrow> error + bytes) \<Rightarrow>
    (int \<times> ProxyRequest) list \<Rightarrow> int \<Rightarrow> worker_local \<Rightarrow>
    (int \<times> worker_local) list \<times> int \<times> worker_local" where
  "worker_clock 0 cfg marshal arrivals now w = ([], now, w)"
| "worker_clock (Suc n) cfg marshal [] now w =
     (case worker_clock n cfg marshal [] (now + tickInterval)
             (snd (tick cfg (now + tickInterval) w)) of
        (out, fin) \<Rightarrow>
          (map (Pair (now + tickInterval)) (opt_list (fst (tick cfg (now + tickInterval) w)))
             @ out, fin))"
| "worker_clock (Suc n) cfg marshal ((t, req) # rest) now w =
     (if t < now + tickInterval
      then (case worker_clock n cfg marshal rest (max now t)
                   (snd (recv_request cfg marshal (max now t) req w)) of
              (out, fin) \<Rightarrow>
                (map (Pair (max now t))
                   (opt_list (fst (recv_request cfg marshal (max now t) req w))) @ out, fin))
      else (case worker_clock n cfg marshal ((t, req) # rest) (now + tickInterval)
                   (snd (tick cfg (now + tickInterval) w)) of
              (out, fin) \<Rightarrow>
                (map (Pair (now + tickInterval))
                   (opt_list (fst (tick cfg (now + tickInterval) w))) @ out, fin)))"

text \<open>\<open>outstandingCustomIDs\<close>: the keys of the map it builds, each once.\<close>

definition outstandingCustomIDs :: "ProxyRequest list \<Rightarrow> string list" where
  "outstandingCustomIDs b = remdups (map CustomID b)"

text \<open>
  The line that the worker appends for a request, and the relation it keeps between its
  variables: the two counters count the requests and the bytes of the buffer, the
  payload is the lines of the buffered requests, and a buffer of more than one request
  is within both limits.
\<close>

definition line_of :: "(ProxyRequest \<Rightarrow> error + bytes) \<Rightarrow> ProxyRequest \<Rightarrow> bytes" where
  "line_of marshal req = (case marshal req of Inl err \<Rightarrow> [] | Inr js \<Rightarrow> js @ [CHR 0x0A])"

definition buffer_inv :: "config \<Rightarrow> (ProxyRequest \<Rightarrow> error + bytes) \<Rightarrow> worker_local \<Rightarrow> bool" where
  "buffer_inv cfg marshal w \<longleftrightarrow>
     batchSize w = int (length (batch w))
     \<and> batchBytes w = int (length (jsonlData w))
     \<and> jsonlData w = concat (map (line_of marshal) (batch w))
     \<and> (length (batch w) \<le> 1
        \<or> (batchSize w \<le> maxBatchSize cfg \<and> batchBytes w \<le> maxBatchBytes cfg))"

definition within_limits :: "config \<Rightarrow> (ProxyRequest \<Rightarrow> error + bytes) \<Rightarrow> worker_local \<Rightarrow> bool" where
  "within_limits cfg marshal b \<longleftrightarrow>
     0 < length (batch b)
     \<and> int (length (batch b)) \<le> max 1 (maxBatchSize cfg)
     \<and> (int (length (jsonlData b)) \<le> maxBatchBytes cfg \<or> length (batch b) = 1)
     \<and> jsonlData b = concat (map (line_of marshal) (batch b))"

text \<open>Inputs for the examples: a request, a serializer, envelopes offered at a steady pace.\<close>

definition request_with_id :: "string \<Rightarrow> ProxyRequest" where
  "request_with_id c =
     \<lparr>CustomID = c, Method = ''POST'', Endpoint = ''/v1/chat/completions'', Body = MapSI []\<rparr>"

definition marshal_id :: "ProxyRequest \<Rightarrow> error + bytes" where
  "marshal_id req = Inr (CustomID req)"

fun steady_arrivals :: "nat \<Rightarrow> ProxyRequest \<Rightarrow> int \<Rightarrow> int \<Rightarrow> (int \<times> ProxyRequest) list" where
  "steady_arrivals 0 req t gap = []"
| "steady_arrivals (Suc n) req t gap = (t, req) # steady_arrivals n req (t + gap) gap"

section \<open>Shared state and goroutines\<close>

text \<open>
  The upstream API, as the functions of the repository that call it: each gives the
  answer of the upstream to its arguments; \<open>getBatchResponse\<close> gives the answers to the
  successive fetches of one batch. The calls made are recorded in the state.
\<close>

record upstream =
  uploadFile :: "bytes \<Rightarrow> string \<Rightarrow> error + string"
  createBatch :: "string \<Rightarrow> string \<Rightarrow> string \<Rightarrow> error + string"
  getBatchResponse :: "string \<Rightarrow> string \<Rightarrow> (error + BatchResponse) list"
  readFile :: "string \<Rightarrow> string \<Rightarrow> error + bytes"

datatype upstream_call =
    UploadFile bytes string
  | CreateBatch string string string
  | DeleteFile string string
  | PollBatch string string "poll_event list"
  | ReadFile string string
  | CancelBatch string string

text \<open>The three uses of \<open>encoding/json\<close>.\<close>

record codec =
  json_Marshal :: "ProxyRequest \<Rightarrow> error + bytes"
  json_Unmarshal_body :: "bytes \<Rightarrow> any option"
  json_Unmarshal_line :: "bytes \<Rightarrow> BatchRequestResponse option"

text \<open>
  A handler goroutine (\<open>handleOpenaiPostEndpoint\<close>) between its blocking operations:
  about to send on the lane channel it has fetched (line 280), about to receive from
  its response channel (line 283), in that receive, returned.
\<close>

datatype handler_pc = AtSend nat | AtRecv | Receiving | Finished

record handler =
  h_customID :: string
  h_responseChan :: nat
  h_req :: ProxyRequest
  h_pc :: handler_pc

text \<open>
  A worker goroutine (\<open>processUploadAndCreateBatch\<close>) at the head of its loop, with
  the number of calls of \<open>jsonlData.Write\<close> it has made so far.
\<close>

record worker =
  w_key :: batchKey
  w_reqToBeBatched :: nat
  w_local :: worker_local
  w_running :: bool
  w_writes :: nat

text \<open>
  The slice returned by \<open>jsonlData.Bytes()\<close> at a hand-over. It holds no bytes of its
  own: it shares the storage of the worker's buffer, which \<open>Reset\<close> keeps and which
  the next \<open>Write\<close> overwrites. It is given by the bytes it shows at the hand-over,
  the worker whose buffer it shares and the number of writes that worker had made.
\<close>

record byte_slice =
  sl_bytes :: bytes
  sl_worker :: nat
  sl_writes :: nat

text \<open>
  A goroutine started by \<open>safeGo4\<close> that has not run yet, with its arguments (the
  start time, which only feeds the timing samples, is left out).
\<close>

datatype task =
    ProcessBatch byte_slice string string "string list"
  | ProcessBatchResponse string string "string list"

text \<open>
  The package variables and the goroutines. Channels are objects on a heap: the
  registries hold their addresses. \<open>batchMap\<close> is a list of pairs, since
  \<open>cancelAllOutstandingBatches\<close> ranges over it. \<open>shutdown\<close> tells whether
  \<open>shutdownChan\<close> has been closed. \<open>calls\<close> lists the calls of the upstream that
  \<open>main\<close> and the goroutines of the executor make themselves, in order; \<open>deleting\<close> lists the
  deletions that \<open>processBatchResponse\<close> leaves to goroutines of their own, each of
  which reaches the upstream at a moment of its own before \<open>processBatchResponse\<close>
  returns: before or after the calls that follow its start.
\<close>

record gstate =
  stats :: Stats
  responseChanMap :: "string \<rightharpoonup> nat"
  respChans :: "nat \<Rightarrow> any chan"
  reqToBeBatchedMap :: "batchKey \<rightharpoonup> nat"
  laneChans :: "nat \<Rightarrow> ProxyRequest chan"
  batchMap :: "(string \<times> string) list"
  shutdown :: bool
  handlers :: "handler list"
  workers :: "worker list"
  tasks :: "task list"
  calls :: "upstream_call list"
  deleting :: "upstream_call list"

definition gstate0 :: gstate where
  "gstate0 =
     \<lparr>stats = stats0, responseChanMap = Map.empty, respChans = (\<lambda>a. make_chan 0),
      reqToBeBatchedMap = Map.empty, laneChans = (\<lambda>a. make_chan 1), batchMap = [],
      shutdown = False, handlers = [], workers = [], tasks = [], calls = [],
      deleting = []\<rparr>"

definition batchMap_Store :: "string \<Rightarrow> string \<Rightarrow> (string \<times> string) list \<Rightarrow> (string \<times> string) list" where
  "batchMap_Store batchID auth m = (batchID, auth) # filter (\<lambda>kv. fst kv \<noteq> batchID) m"

definition batchMap_Delete :: "string \<Rightarrow> (string \<times> string) list \<Rightarrow> (string \<times> string) list" where
  "batchMap_Delete batchID m = filter (\<lambda>kv. fst kv \<noteq> batchID) m"

section \<open>Error synthesis and response demultiplexer\<close>

text \<open>
  How a goroutine's function ends: it returns, it panics (\<open>safeGo\<close> recovers and the
  goroutine is over), or it is blocked in a channel operation. In each case the state
  is the one it has reached.
\<close>

datatype outcome = Done | Panicked | Blocked

definition and_then :: "outcome \<times> 'a \<Rightarrow> ('a \<Rightarrow> outcome \<times> 'a) \<Rightarrow> outcome \<times> 'a" where
  "and_then r f = (if fst r = Done then f (snd r) else r)"

text \<open>\<open>for customID := range m { body }\<close> over the keys of a map, in the order of the list.\<close>

fun range_ids :: "(string \<Rightarrow> gstate \<Rightarrow> outcome \<times> gstate) \<Rightarrow> string list \<Rightarrow> gstate \<Rightarrow>
    outcome \<times> gstate" where
  "range_ids body [] s = (Done, s)"
| "range_ids body (customID # ids) s = and_then (body customID s) (range_ids body ids)"

text \<open>The two statements \<open>ch <- v; close(ch)\<close> on the response channel at address \<open>a\<close>.\<close>

definition send_and_close :: "nat \<Rightarrow> any \<Rightarrow> gstate \<Rightarrow> outcome \<times> gstate" where
  "send_and_close a v s =
     (case chan_send (respChans s a) v of
        SendPanics \<Rightarrow> (Panicked, s)
      | SendBlocks \<Rightarrow> (Blocked, s)
      | Sent ch \<Rightarrow>
          (case chan_close Nil ch of
             None \<Rightarrow> (Panicked, s\<lparr>respChans := (respChans s)(a := ch)\<rparr>)
           | Some ch' \<Rightarrow> (Done, s\<lparr>respChans := (respChans s)(a := ch')\<rparr>)))"

definition synthesized_error :: "string \<Rightarrow> any" where
  "synthesized_error errorMsg = MapSI [(''error'', MapSS [(''message'', errorMsg)])]"

definition sendErrorResponse :: "string \<Rightarrow> string \<Rightarrow> gstate \<Rightarrow> outcome \<times> gstate" where
  "sendErrorResponse customID errorMsg s =
     and_then
       (case responseChanMap s customID of
          Some a \<Rightarrow> send_and_close a (synthesized_error errorMsg) s
        | None \<Rightarrow> (Done, s))
       (\<lambda>s'. (Done, s'\<lparr>stats := trackSynthesizedErrorResponse (stats s')\<rparr>))"

definition sendErrorToAllRequests :: "string list \<Rightarrow> string \<Rightarrow> gstate \<Rightarrow> outcome \<times> gstate" where
  "sendErrorToAllRequests customIDs errorMsg s =
     range_ids (\<lambda>customID. sendErrorResponse customID errorMsg) customIDs s"

text \<open>\<open>bytes.Split(jsonlContent, []byte("\n"))\<close>.\<close>

fun split_lines :: "bytes \<Rightarrow> bytes list" where
  "split_lines [] = [[]]"
| "split_lines (c # cs) =
     (if c = CHR 0x0A then [] # split_lines cs
      else (case split_lines cs of
              [] \<Rightarrow> [[c]]
            | l # ls \<Rightarrow> (c # l) # ls))"

text \<open>The value sent for a result line.\<close>

definition line_value :: "BatchRequestResponse \<Rightarrow> any" where
  "line_value reqResponse =
     (if rr_Error reqResponse \<noteq> None then MapSI [(''error'', ErrPtr (rr_Error reqResponse))]
      else rr_Body reqResponse)"

text \<open>
  The loop of \<open>processFileContent\<close>. The set of outstanding ids is a map shared with the
  caller, which sees the deletions: it is returned with the state.
\<close>

fun processLines :: "(bytes \<Rightarrow> BatchRequestResponse option) \<Rightarrow> bytes list \<Rightarrow> string list \<Rightarrow>
    gstate \<Rightarrow> outcome \<times> gstate \<times> string list" where
  "processLines unmarshal [] ids s = (Done, s, ids)"
| "processLines unmarshal (line # ls) ids s =
     (if length line = 0 then processLines unmarshal ls ids s
      else (case unmarshal line of
              None \<Rightarrow> processLines unmarshal ls ids s
            | Some reqResponse \<Rightarrow>
                (case responseChanMap s (rr_CustomID reqResponse) of
                   None \<Rightarrow> processLines unmarshal ls ids s
                 | Some a \<Rightarrow>
                     (case send_and_close a (line_value reqResponse) s of
                        (Done, s') \<Rightarrow>
                          processLines unmarshal ls (removeAll (rr_CustomID reqResponse) ids) s'
                      | (oc, s') \<Rightarrow> (oc, s', ids)))))"

definition processFileContent :: "(bytes \<Rightarrow> BatchRequestResponse option) \<Rightarrow> bytes \<Rightarrow> string list \<Rightarrow>
    gstate \<Rightarrow> outcome \<times> gstate \<times> string list" where
  "processFileContent unmarshal jsonlContent ids s =
     processLines unmarshal (split_lines jsonlContent) ids s"

section \<open>Batch executor (processBatch, processBatchResponse)\<close>

text \<open>
  The loop over \<open>filesToProcess\<close>. The deletion of a file that has been read is
  started in a goroutine of its own (\<open>safeGo1\<close>) before the content is processed;
  \<open>processBatchResponse\<close> waits for these goroutines when it returns
  (\<open>defer waitDelete.Wait()\<close>).
\<close>

fun processFiles :: "upstream \<Rightarrow> (bytes \<Rightarrow> BatchRequestResponse option) \<Rightarrow> string \<Rightarrow>
    string option list \<Rightarrow> string list \<Rightarrow> gstate \<Rightarrow> outcome \<times> gstate \<times> string list" where
  "processFiles up unmarshal auth [] ids s = (Done, s, ids)"
| "processFiles up unmarshal auth (None # fs) ids s = processFiles up unmarshal auth fs ids s"
| "processFiles up unmarshal auth (Some fileID # fs) ids s =
     (case readFile up fileID auth of
        Inl err \<Rightarrow>
          processFiles up unmarshal auth fs ids (s\<lparr>calls := calls s @ [ReadFile fileID auth]\<rparr>)
      | Inr jsonlContent \<Rightarrow>
          (case processFileContent unmarshal jsonlContent ids
                  (s\<lparr>calls := calls s @ [ReadFile fileID auth],
                     deleting := deleting s @ [DeleteFile fileID auth]\<rparr>) of
             (Done, s', ids') \<Rightarrow> processFiles up unmarshal auth fs ids' s'
           | (oc, s', ids') \<Rightarrow> (oc, s', ids')))"

definition no_response_msg :: "string \<Rightarrow> string" where
  "no_response_msg customID = ''No response received for request ['' @ customID @ ''] in the batch''"

text \<open>
  \<open>processBatchResponse\<close>. It is blocked as long as the poller has not returned. The
  deferred \<open>batchMap.Delete(batchID)\<close> runs when it returns and when it panics.
\<close>

definition processBatchResponse_body :: "upstream \<Rightarrow> (bytes \<Rightarrow> BatchRequestResponse option) \<Rightarrow>
    string \<Rightarrow> string \<Rightarrow> string list \<Rightarrow> gstate \<Rightarrow> outcome \<times> gstate" where
  "processBatchResponse_body up unmarshal batchID auth ids s =
     (let polled = pollBatchStatus (getBatchResponse up batchID auth);
          s1 = s\<lparr>calls := calls s @ [PollBatch batchID auth (fst polled)]\<rparr>
      in case snd polled of
           None \<Rightarrow> (Blocked, s1)
         | Some (Inl err) \<Rightarrow>
             and_then (sendErrorToAllRequests ids (''Batch processing failed: '' @ err) s1)
               (\<lambda>s'. (Done, s'\<lparr>stats := trackBatchEnd False (stats s')\<rparr>))
         | Some (Inr batchResponse) \<Rightarrow>
             (case processFiles up unmarshal auth
                     [OutputFileID batchResponse, ErrorFileID batchResponse] ids s1 of
                (Done, s2, ids') \<Rightarrow>
                  and_then
                    (range_ids (\<lambda>customID. sendErrorResponse customID (no_response_msg customID))
                       ids' s2)
                    (\<lambda>s'. (Done, s'\<lparr>stats := trackBatchEnd True (stats s')\<rparr>))
              | (oc, s2, ids') \<Rightarrow> (oc, s2)))"

definition processBatchResponse :: "upstream \<Rightarrow> (bytes \<Rightarrow> BatchRequestResponse option) \<Rightarrow>
    string \<Rightarrow> string \<Rightarrow> string list \<Rightarrow> gstate \<Rightarrow> outcome \<times> gstate" where
  "processBatchResponse up unmarshal batchID auth ids s =
     (case processBatchResponse_body up unmarshal batchID auth ids s of
        (Blocked, s') \<Rightarrow> (Blocked, s')
      | (oc, s') \<Rightarrow> (oc, s'\<lparr>batchMap := batchMap_Delete batchID (batchMap s')\<rparr>))"

text \<open>
  \<open>processBatch\<close>; \<open>jsonl\<close> is what \<open>uploadFile\<close> reads through the slice it is
  given. The third component of the result is the \<open>processBatchResponse\<close> goroutine
  it starts, if any.
\<close>

definition processBatch :: "upstream \<Rightarrow> bytes \<Rightarrow> string \<Rightarrow> string \<Rightarrow> string list \<Rightarrow> gstate \<Rightarrow>
    outcome \<times> gstate \<times> task option" where
  "processBatch up jsonl auth endpoint ids s =
     (let s1 = s\<lparr>stats := trackBatchStart (stats s), calls := calls s @ [UploadFile jsonl auth]\<rparr>
      in case uploadFile up jsonl auth of
           Inl err \<Rightarrow>
             (case and_then (sendErrorToAllRequests ids (''Failed to upload file: '' @ err) s1)
                     (\<lambda>s'. (Done, s'\<lparr>stats := trackBatchEnd False (stats s')\<rparr>)) of
                (oc, s2) \<Rightarrow> (oc, s2, None))
         | Inr fileID \<Rightarrow>
             (let s2 = s1\<lparr>calls := calls s1 @ [CreateBatch fileID auth endpoint]\<rparr>
              in case createBatch up fileID auth endpoint of
                   Inl err \<Rightarrow>
                     (case and_then
                             (sendErrorToAllRequests ids (''Failed to create batch: '' @ err)
                                (s2\<lparr>calls := calls s2 @ [DeleteFile fileID auth]\<rparr>))
                             (\<lambda>s'. (Done, s'\<lparr>stats := trackBatchEnd False (stats s')\<rparr>)) of
                        (oc, s3) \<Rightarrow> (oc, s3, None))
                 | Inr batchID \<Rightarrow>
                     (Done, s2\<lparr>batchMap := batchMap_Store batchID auth (batchMap s2)\<rparr>,
                      Some (ProcessBatchResponse batchID auth ids))))"

section \<open>Inbound handler (handleOpenaiPostEndpoint)\<close>

text \<open>\<open>fmt.Sprintf("%d", i)\<close>.\<close>

definition digit_char :: "nat \<Rightarrow> char" where
  "digit_char d = char_of (48 + d)"

fun decimal :: "nat \<Rightarrow> string" where
  "decimal n = (if n < 10 then [digit_char n] else decimal (n div 10) @ [digit_char (n mod 10)])"

declare decimal.simps [simp del]

definition sprint_d :: "int \<Rightarrow> string" where
  "sprint_d i = (if i < 0 then CHR ''-'' # decimal (nat (- i)) else decimal (nat i))"

text \<open>
  The correlation id for the value \<open>draw\<close> returned by \<open>rand.Intn(1000000)\<close>, which is
  at least 0 and less than 1000000.
\<close>

definition customID_of :: "int \<Rightarrow> string" where
  "customID_of draw = ''req_'' @ sprint_d draw"

text \<open>What the handler reads of the inbound request; the body is the result of \<open>io.ReadAll\<close>.\<close>

record HttpRequest =
  rq_Method :: string
  rq_Path :: string
  rq_Authorization :: string
  rq_Body :: "error + bytes"

text \<open>
  Lines 233 to 279 of \<open>http_client.go\<close>: from \<open>trackRequestStart\<close> to the start of a
  worker for a new lane.
  \<open>now\<close> is the time at which that worker initialises \<open>batchStart\<close>. A request
  answered 405 or 400 before line 252 leaves no goroutine behind; one answered 400 for
  a body that does not parse has registered its channel and removes the registration on
  return. Otherwise the handler is about to send its envelope on the lane's channel.
  The address of a new channel is the number of those made before it.
\<close>

definition handler_start :: "codec \<Rightarrow> int \<Rightarrow> HttpRequest \<Rightarrow> int \<Rightarrow> gstate \<Rightarrow> gstate" where
  "handler_start cdc now r draw s =
     (let s1 = s\<lparr>stats := trackRequestStart (stats s)\<rparr>
      in if rq_Method r \<noteq> ''POST'' then s1
         else (case rq_Body r of
                 Inl err \<Rightarrow> s1
               | Inr body \<Rightarrow>
                   (let customID = customID_of draw;
                        responseChan = length (handlers s1);
                        s2 = s1\<lparr>respChans := (respChans s1)(responseChan := make_chan 0),
                                responseChanMap := (responseChanMap s1)(customID \<mapsto> responseChan)\<rparr>
                    in case json_Unmarshal_body cdc body of
                         None \<Rightarrow>
                           s2\<lparr>responseChanMap := (responseChanMap s2)(customID := None),
                              handlers := handlers s2 @
                                [\<lparr>h_customID = customID, h_responseChan = responseChan,
                                  h_req = \<lparr>CustomID = customID, Method = ''POST'',
                                            Endpoint = rq_Path r, Body = Nil\<rparr>,
                                  h_pc = Finished\<rparr>]\<rparr>
                       | Some bodyMap \<Rightarrow>
                           (let key = \<lparr>key_auth = rq_Authorization r, key_endpoint = rq_Path r\<rparr>;
                                req = \<lparr>CustomID = customID, Method = ''POST'',
                                        Endpoint = rq_Path r, Body = bodyMap\<rparr>
                            in case reqToBeBatchedMap s2 key of
                                 Some ch \<Rightarrow>
                                   s2\<lparr>handlers := handlers s2 @
                                        [\<lparr>h_customID = customID, h_responseChan = responseChan,
                                          h_req = req, h_pc = AtSend ch\<rparr>]\<rparr>
                               | None \<Rightarrow>
                                   (let ch = length (workers s2)
                                    in s2\<lparr>laneChans := (laneChans s2)(ch := make_chan 1),
                                          reqToBeBatchedMap := (reqToBeBatchedMap s2)(key \<mapsto> ch),
                                          workers := workers s2 @
                                            [\<lparr>w_key = key, w_reqToBeBatched = ch,
                                              w_local = reset now, w_running = True,
                                              w_writes = 0\<rparr>],
                                          handlers := handlers s2 @
                                            [\<lparr>h_customID = customID, h_responseChan = responseChan,
                                              h_req = req, h_pc = AtSend ch\<rparr>]\<rparr>)))))"

text \<open>Line 280, \<open>ch <- req\<close>: not possible (\<open>None\<close>) while the send would block.\<close>

definition handler_send :: "nat \<Rightarrow> gstate \<Rightarrow> gstate option" where
  "handler_send i s =
     (if i < length (handlers s)
      then (case h_pc (handlers s ! i) of
              AtSend ch \<Rightarrow>
                (case chan_send (laneChans s ch) (h_req (handlers s ! i)) of
                   Sent c \<Rightarrow>
                     Some (s\<lparr>laneChans := (laneChans s)(ch := c),
                             handlers := (handlers s)[i := (handlers s ! i)\<lparr>h_pc := AtRecv\<rparr>]\<rparr>)
                 | SendBlocks \<Rightarrow> None
                 | SendPanics \<Rightarrow> None)
            | AtRecv \<Rightarrow> None | Receiving \<Rightarrow> None | Finished \<Rightarrow> None)
      else None)"

text \<open>Line 283, \<open>response := <-responseChan\<close>: the handler enters the receive.\<close>

definition handler_recv :: "nat \<Rightarrow> gstate \<Rightarrow> gstate option" where
  "handler_recv i s =
     (if i < length (handlers s) \<and> h_pc (handlers s ! i) = AtRecv
      then Some (s\<lparr>respChans := (respChans s)
                       (h_responseChan (handlers s ! i) :=
                          chan_recv Nil (respChans s (h_responseChan (handlers s ! i)))),
                    handlers := (handlers s)[i := (handlers s ! i)\<lparr>h_pc := Receiving\<rparr>]\<rparr>)
      else None)"

text \<open>
  Lines 284 to 291 and the deferred \<open>responseChanMap.Delete(customID)\<close>, once the receive
  has returned a value: \<open>trackRequestEnd(true, ...)\<close>, then the value is written as the
  body of a 200 response.
\<close>

definition handler_finish :: "nat \<Rightarrow> gstate \<Rightarrow> gstate option" where
  "handler_finish i s =
     (if i < length (handlers s) \<and> h_pc (handlers s ! i) = Receiving
      then (case chan_recvq (respChans s (h_responseChan (handlers s ! i))) of
              Got response \<Rightarrow>
                Some (s\<lparr>stats := trackRequestEnd True (stats s),
                        responseChanMap := (responseChanMap s)(h_customID (handlers s ! i) := None),
                        handlers := (handlers s)[i := (handlers s ! i)\<lparr>h_pc := Finished\<rparr>]\<rparr>)
            | Parked \<Rightarrow> None
            | NotWaiting \<Rightarrow> None)
      else None)"

section \<open>The goroutines together\<close>

text \<open>
  The goroutine started for a buffer that is handed over by worker \<open>j\<close>, which has made
  \<open>n\<close> writes: \<open>safeGo4(processBatch)(jsonlData.Bytes(), key.auth, key.endpoint,
  outstandingCustomIDs(batch))\<close>.
\<close>

definition task_of :: "batchKey \<Rightarrow> nat \<Rightarrow> nat \<Rightarrow> worker_local \<Rightarrow> task" where
  "task_of key j n b =
     ProcessBatch \<lparr>sl_bytes = jsonlData b, sl_worker = j, sl_writes = n\<rparr>
       (key_auth key) (key_endpoint key) (outstandingCustomIDs (batch b))"

text \<open>
  What a goroutine reads through such a slice: the bytes of the hand-over as long as
  the worker has not written to its buffer since (so always after the hand-over of the
  shutdown case, which is followed by no write). Once the worker has written again,
  the storage is being overwritten from its start, in place or not according to its
  capacity, and nothing is known of the bytes read but their number.
\<close>

definition slice_read :: "gstate \<Rightarrow> byte_slice \<Rightarrow> bytes \<Rightarrow> bool" where
  "slice_read s sl payload \<longleftrightarrow>
     length payload = length (sl_bytes sl)
     \<and> (w_writes (workers s ! sl_worker sl) = sl_writes sl \<longrightarrow> payload = sl_bytes sl)"

text \<open>
  One iteration of a worker's loop, by the case its \<open>select\<close> takes. The receive case
  needs an envelope in the lane's channel, the shutdown case needs \<open>shutdownChan\<close>
  closed; the timer case is always possible. The receive case writes to the buffer
  when the request has been serialized, after the hand-over if there is one.
\<close>

definition worker_recv :: "config \<Rightarrow> codec \<Rightarrow> nat \<Rightarrow> int \<Rightarrow> gstate \<Rightarrow> gstate option" where
  "worker_recv cfg cdc j now s =
     (if j < length (workers s) \<and> w_running (workers s ! j)
      then (case chan_buf (laneChans s (w_reqToBeBatched (workers s ! j))) of
              [] \<Rightarrow> None
            | req # rest \<Rightarrow>
                (case recv_request cfg (json_Marshal cdc) now req (w_local (workers s ! j)) of
                   (out, w') \<Rightarrow>
                     Some (s\<lparr>laneChans := (laneChans s)
                               (w_reqToBeBatched (workers s ! j) :=
                                  (laneChans s (w_reqToBeBatched (workers s ! j)))\<lparr>chan_buf := rest\<rparr>),
                             workers := (workers s)
                               [j := (workers s ! j)
                                  \<lparr>w_local := w',
                                   w_writes := w_writes (workers s ! j)
                                     + (case json_Marshal cdc req of
                                          Inl err \<Rightarrow> 0 | Inr js \<Rightarrow> 1)\<rparr>],
                             tasks := tasks s @
                               map (task_of (w_key (workers s ! j)) j (w_writes (workers s ! j)))
                                 (opt_list out)\<rparr>)))
      else None)"

definition worker_tick :: "config \<Rightarrow> nat \<Rightarrow> int \<Rightarrow> gstate \<Rightarrow> gstate option" where
  "worker_tick cfg j now s =
     (if j < length (workers s) \<and> w_running (workers s ! j)
      then (case tick cfg now (w_local (workers s ! j)) of
              (out, w') \<Rightarrow>
                Some (s\<lparr>workers := (workers s)[j := (workers s ! j)\<lparr>w_local := w'\<rparr>],
                        tasks := tasks s @
                          map (task_of (w_key (workers s ! j)) j (w_writes (workers s ! j)))
                            (opt_list out)\<rparr>))
      else None)"

definition worker_shutdown :: "nat \<Rightarrow> gstate \<Rightarrow> gstate option" where
  "worker_shutdown j s =
     (if j < length (workers s) \<and> w_running (workers s ! j) \<and> shutdown s
      then Some (s\<lparr>reqToBeBatchedMap := (reqToBeBatchedMap s)(w_key (workers s ! j) := None),
                    workers := (workers s)[j := (workers s ! j)\<lparr>w_running := False\<rparr>],
                    tasks := tasks s @
                      map (task_of (w_key (workers s ! j)) j (w_writes (workers s ! j)))
                        (opt_list (final_flush (w_local (workers s ! j))))\<rparr>)
      else None)"

text \<open>
  \<open>main\<close> after the signal: \<open>close(shutdownChan)\<close>, then
  \<open>cancelAllOutstandingBatches\<close>. The listener stays open until \<open>main\<close> reaches
  \<open>server.Shutdown\<close>, and the handlers already running go on.
\<close>

definition main_shutdown :: "gstate \<Rightarrow> gstate option" where
  "main_shutdown s =
     (if shutdown s then None
      else Some (s\<lparr>shutdown := True,
                    calls := calls s @ map (\<lambda>kv. CancelBatch (fst kv) (snd kv)) (batchMap s)\<rparr>))"

text \<open>
  A started goroutine of the executor runs to its end in one step, against the upstream
  given with the step, when none of its channel operations would block. After a panic
  the goroutine is over and the state is the one reached. \<open>processBatch\<close> and the
  \<open>processBatchResponse\<close> it starts are two goroutines and take two steps, between
  which the other goroutines take theirs. The step of \<open>processBatch\<close> is given the
  bytes that \<open>uploadFile\<close> reads through the slice.
\<close>

definition drop_task :: "nat \<Rightarrow> task list \<Rightarrow> task list" where
  "drop_task i ts = take i ts @ drop (Suc i) ts"

definition run_task :: "codec \<Rightarrow> upstream \<Rightarrow> bytes \<Rightarrow> nat \<Rightarrow> gstate \<Rightarrow> gstate option" where
  "run_task cdc up payload i s =
     (if i < length (tasks s)
      then (case tasks s ! i of
              ProcessBatch sl auth endpoint ids \<Rightarrow>
                (if slice_read s sl payload
                 then (case processBatch up payload auth endpoint ids s of
                         (Blocked, s', spawned) \<Rightarrow> None
                       | (oc, s', spawned) \<Rightarrow>
                           Some (s'\<lparr>tasks := drop_task i (tasks s') @ opt_list spawned\<rparr>))
                 else None)
            | ProcessBatchResponse batchID auth ids \<Rightarrow>
                (case processBatchResponse up (json_Unmarshal_line cdc) batchID auth ids s of
                   (Blocked, s') \<Rightarrow> None
                 | (oc, s') \<Rightarrow> Some (s'\<lparr>tasks := drop_task i (tasks s')\<rparr>)))
      else None)"

datatype action =
    Request int HttpRequest int
  | HandlerSend nat
  | HandlerRecv nat
  | HandlerFinish nat
  | WorkerRecv nat int
  | WorkerTick nat int
  | WorkerShutdown nat
  | MainShutdown
  | RunTask upstream bytes nat

fun step :: "config \<Rightarrow> codec \<Rightarrow> action \<Rightarrow> gstate \<Rightarrow> gstate option" where
  "step cfg cdc (Request now r draw) s = Some (handler_start cdc now r draw s)"
| "step cfg cdc (HandlerSend i) s = handler_send i s"
| "step cfg cdc (HandlerRecv i) s = handler_recv i s"
| "step cfg cdc (HandlerFinish i) s = handler_finish i s"
| "step cfg cdc (WorkerRecv j now) s = worker_recv cfg cdc j now s"
| "step cfg cdc (WorkerTick j now) s = worker_tick cfg j now s"
| "step cfg cdc (WorkerShutdown j) s = worker_shutdown j s"
| "step cfg cdc MainShutdown s = main_shutdown s"
| "step cfg cdc (RunTask up payload i) s = run_task cdc up payload i s"

text \<open>An execution: the steps taken, in order; \<open>None\<close> when one of them is not possible.\<close>

fun run :: "config \<Rightarrow> codec \<Rightarrow> action list \<Rightarrow> gstate \<Rightarrow> gstate option" where
  "run cfg cdc [] s = Some s"
| "run cfg cdc (a # as) s =
     (case step cfg cdc a s of None \<Rightarrow> None | Some s' \<Rightarrow> run cfg cdc as s')"

section \<open>Notions for the statements\<close>

text \<open>
  A channel on which the handler is in its receive and nothing has been delivered, and
  what a hand-over followed by \<open>close\<close> makes of it: the receiver has got the value and
  the channel is closed.
\<close>

definition awaiting_chan :: "'a chan \<Rightarrow> bool" where
  "awaiting_chan ch \<longleftrightarrow> \<not> chan_closed ch \<and> chan_recvq ch = Parked"

definition handed_over :: "'a \<Rightarrow> 'a chan \<Rightarrow> 'a chan" where
  "handed_over v ch = ch\<lparr>chan_closed := True, chan_recvq := Got v\<rparr>"

text \<open>
  No two correlation ids are registered with one channel; the ids of a list are
  pairwise distinct, and each of them that is registered has its handler in its
  receive on a channel on which nothing has been delivered.
\<close>

definition reg_inj :: "gstate \<Rightarrow> bool" where
  "reg_inj s \<longleftrightarrow>
     (\<forall>c c' a. responseChanMap s c = Some a \<and> responseChanMap s c' = Some a \<longrightarrow> c = c')"

definition awaited_ids :: "gstate \<Rightarrow> string list \<Rightarrow> bool" where
  "awaited_ids s ids \<longleftrightarrow>
     distinct ids
     \<and> (\<forall>customID \<in> set ids. \<forall>a. responseChanMap s customID = Some a \<longrightarrow>
           awaiting_chan (respChans s a))"

text \<open>
  Between the states \<open>s\<close> and \<open>s'\<close> the value \<open>v\<close>, and nothing else, has been
  delivered on the channel registered for the id in \<open>s\<close>, and the channel has been
  closed.
\<close>

definition delivered :: "gstate \<Rightarrow> gstate \<Rightarrow> string \<Rightarrow> any \<Rightarrow> bool" where
  "delivered s s' customID v \<longleftrightarrow>
     (case responseChanMap s customID of
        None \<Rightarrow> False
      | Some a \<Rightarrow> respChans s' a = handed_over v (respChans s a))"

text \<open>
  The state after each value of a list of pairs (id, value) has been handed over on the
  channel registered for its id; then with the counter of synthesized errors advanced
  once per id, for the error documents made from a message.
\<close>

definition sent_all :: "(string \<times> any) list \<Rightarrow> gstate \<Rightarrow> gstate" where
  "sent_all dl s =
     s\<lparr>respChans := (\<lambda>a. case find (\<lambda>d. responseChanMap s (fst d) = Some a) dl of
                           None \<Rightarrow> respChans s a
                         | Some d \<Rightarrow> handed_over (snd d) (respChans s a))\<rparr>"

definition error_deliveries :: "(string \<Rightarrow> string) \<Rightarrow> string list \<Rightarrow> (string \<times> any) list" where
  "error_deliveries msg ids = map (\<lambda>customID. (customID, synthesized_error (msg customID))) ids"

definition errors_sent :: "(string \<Rightarrow> string) \<Rightarrow> string list \<Rightarrow> gstate \<Rightarrow> gstate" where
  "errors_sent msg ids s =
     (sent_all (error_deliveries msg ids) s)
       \<lparr>stats := (stats s)\<lparr>synthesizedErrResponses :=
                            synthesizedErrResponses (stats s) + of_nat (length ids)\<rparr>\<rparr>"

text \<open>
  The result lines that \<open>processFileContent\<close> delivers: those that are not empty, parse
  and name a registered id; for the lines of one file, and for the files read by
  \<open>processBatchResponse\<close>, with the calls of the upstream made on the way and the
  deletions started.
\<close>

fun hits :: "(bytes \<Rightarrow> BatchRequestResponse option) \<Rightarrow> (string \<rightharpoonup> nat) \<Rightarrow> bytes list \<Rightarrow>
    BatchRequestResponse list" where
  "hits unmarshal reg [] = []"
| "hits unmarshal reg (line # ls) =
     (if length line = 0 then hits unmarshal reg ls
      else (case unmarshal line of
              None \<Rightarrow> hits unmarshal reg ls
            | Some reqResponse \<Rightarrow>
                (case reg (rr_CustomID reqResponse) of
                   None \<Rightarrow> hits unmarshal reg ls
                 | Some a \<Rightarrow> reqResponse # hits unmarshal reg ls)))"

definition line_deliveries :: "BatchRequestResponse list \<Rightarrow> (string \<times> any) list" where
  "line_deliveries hs = map (\<lambda>reqResponse. (rr_CustomID reqResponse, line_value reqResponse)) hs"

fun file_hits :: "upstream \<Rightarrow> (bytes \<Rightarrow> BatchRequestResponse option) \<Rightarrow> string \<Rightarrow>
    (string \<rightharpoonup> nat) \<Rightarrow> string option list \<Rightarrow> BatchRequestResponse list" where
  "file_hits up unmarshal auth reg [] = []"
| "file_hits up unmarshal auth reg (None # fs) = file_hits up unmarshal auth reg fs"
| "file_hits up unmarshal auth reg (Some fileID # fs) =
     (case readFile up fileID auth of
        Inl err \<Rightarrow> file_hits up unmarshal auth reg fs
      | Inr jsonlContent \<Rightarrow>
          hits unmarshal reg (split_lines jsonlContent) @ file_hits up unmarshal auth reg fs)"







text \<open>
  What the functions of the executor do to the pending channels when all of them are
  unbuffered: they stay unbuffered, and each of them is left as it is or, if its
  handler was parked on it, gets one value handed over and is closed.
\<close>

definition unbuffered :: "gstate \<Rightarrow> bool" where
  "unbuffered s \<longleftrightarrow> (\<forall>a. chan_cap (respChans s a) = 0)"

definition advance :: "gstate \<Rightarrow> gstate \<Rightarrow> bool" where
  "advance s s' \<longleftrightarrow>
     (unbuffered s \<longrightarrow>
        unbuffered s'
        \<and> (\<forall>a. respChans s' a = respChans s a
                 \<or> (awaiting_chan (respChans s a)
                     \<and> (\<exists>v. respChans s' a = handed_over v (respChans s a)))))"

section \<open>Inputs for the examples\<close>

text \<open>
  A codec for which a request body parses unless it is empty and a result line is the
  correlation id it names; requests, and upstreams that answer every call, fail every
  upload, fail every creation of a batch.
\<close>

definition codec_ex :: codec where
  "codec_ex =
     \<lparr>json_Marshal = marshal_id,
      json_Unmarshal_body = (\<lambda>b. if b = [] then None else Some (MapSI [(''prompt'', Str b)])),
      json_Unmarshal_line = (\<lambda>l. Some \<lparr>rr_CustomID = l, rr_Body = Str l, rr_Error = None\<rparr>)\<rparr>"

definition post :: "string \<Rightarrow> string \<Rightarrow> HttpRequest" where
  "post path b =
     \<lparr>rq_Method = ''POST'', rq_Path = path, rq_Authorization = ''Bearer k'', rq_Body = Inr b\<rparr>"

definition up_ok :: upstream where
  "up_ok =
     \<lparr>uploadFile = (\<lambda>d a. Inr ''file_1''),
      createBatch = (\<lambda>f a e. Inr ''batch_1''),
      getBatchResponse = (\<lambda>b a.
        [Inr ((batch_with_status ''completed'')\<lparr>OutputFileID := Some ''out_1''\<rparr>)]),
      readFile = (\<lambda>f a. Inr (''req_7'' @ [CHR 0x0A]))\<rparr>"

definition up_upload_fails :: upstream where
  "up_upload_fails = up_ok\<lparr>uploadFile := (\<lambda>d a. Inl ''boom'')\<rparr>"


text \<open>
  Executions from the initial state at the default settings: two requests of one lane
  whose handlers are in their receive when the timer case hands their batch over; a
  request whose handler has fetched the lane's channel when the shutdown signal makes
  the worker return, and sends its envelope afterwards; two requests of different
  lanes that draw the same number, through to the end of both batches.
\<close>

definition after_run :: "action list \<Rightarrow> gstate" where
  "after_run as = (case run default_config codec_ex as gstate0 of None \<Rightarrow> gstate0 | Some s \<Rightarrow> s)"

definition two_parked_run :: "action list" where
  "two_parked_run =
     [Request 0 (post ''/v1/chat/completions'' ''Hi'') 7, HandlerSend 0, HandlerRecv 0,
      WorkerRecv 0 10,
      Request 20 (post ''/v1/chat/completions'' ''Aye'') 8, HandlerSend 1, HandlerRecv 1,
      WorkerRecv 0 30, WorkerTick 0 (5 * Second)]"

definition two_parked :: gstate where
  "two_parked = after_run two_parked_run"


definition collision_run :: "action list" where
  "collision_run =
     [Request 0 (post ''/v1/chat/completions'' ''Hi'') 7,
      Request 0 (post ''/v1/embeddings'' ''Aye'') 7,
      HandlerSend 0, HandlerSend 1, HandlerRecv 0, HandlerRecv 1,
      WorkerRecv 0 10, WorkerRecv 1 10, WorkerTick 0 (5 * Second), WorkerTick 1 (5 * Second),
      RunTask up_ok (''req_7'' @ [CHR 0x0A]) 0, RunTask up_ok [] 1, HandlerFinish 1,
      RunTask up_ok (''req_7'' @ [CHR 0x0A]) 0, RunTask up_ok [] 0]"


definition polled_run :: "action list" where
  "polled_run =
     two_parked_run @ [RunTask up_ok (''req_7'' @ [CHR 0x0A] @ ''req_8'' @ [CHR 0x0A]) 0]"


definition polled :: gstate where
  "polled = after_run polled_run"



text \<open>The number written by a string of decimal digits.\<close>

definition undecimal :: "string \<Rightarrow> nat" where
  "undecimal ds = foldl (\<lambda>acc c. 10 * acc + (of_char c - 48)) 0 ds"

text \<open>
  What the functions of the executor leave as it is: the registries but \<open>batchMap\<close>, the
  channels of the lanes, the shutdown signal, the goroutines, and the three counters of
  requests.
\<close>

definition executor_frame :: "gstate \<Rightarrow> gstate \<Rightarrow> bool" where
  "executor_frame s s' \<longleftrightarrow>
     responseChanMap s' = responseChanMap s
     \<and> reqToBeBatchedMap s' = reqToBeBatchedMap s
     \<and> laneChans s' = laneChans s
     \<and> shutdown s' = shutdown s
     \<and> handlers s' = handlers s
     \<and> workers s' = workers s
     \<and> tasks s' = tasks s
     \<and> requestsTotal (stats s') = requestsTotal (stats s)
     \<and> requestsSuccessful (stats s') = requestsSuccessful (stats s)
     \<and> requestsFailed (stats s') = requestsFailed (stats s)"

text \<open>
  Two more executions: a request whose batch fails at the upload, up to the delivery of
  the synthesized error; a request batched and handed over at shutdown, followed by a
  request of the same lane that arrives after the worker has returned.
\<close>

definition synth_run :: "action list" where
  "synth_run =
     [Request 0 (post ''/v1/chat/completions'' ''Hi'') 7, HandlerSend 0, HandlerRecv 0,
      WorkerRecv 0 10, WorkerTick 0 (5 * Second),
      RunTask up_upload_fails (''req_7'' @ [CHR 0x0A]) 0]"

definition late_run :: "action list" where
  "late_run =
     [Request 0 (post ''/v1/chat/completions'' ''Hi'') 7, HandlerSend 0, HandlerRecv 0,
      WorkerRecv 0 10, MainShutdown, WorkerShutdown 0,
      Request 20 (post ''/v1/chat/completions'' ''Aye'') 8, HandlerSend 1]"

section \<open>Theorems\<close>

subsection \<open>Poller\<close>

lemma pollBatchStatus_pending:
  "\<not> final_status (Status b) \<Longrightarrow>
   pollBatchStatus (Inr b # rs) =
     ([Sleep SleepDuration, Fetch, Sleep SleepDuration] @ fst (pollBatchStatus rs),
      snd (pollBatchStatus rs))"
  by (simp add: case_prod_beta)

lemma pollBatchStatus_ends:
  "ends_polling r \<Longrightarrow> pollBatchStatus (r # rs) = ([Sleep SleepDuration, Fetch], Some r)"
  by (cases r) (simp_all add: ends_polling_def)

text \<open>
  C3, as stated, fails: for the answers \<open>in_progress\<close>, \<open>completed\<close> the poller sleeps
  twice between its two fetches (once at the end of the \<open>default\<close> branch and once more
  at the head of the loop), so its trace is not the one-sleep-per-fetch cadence.
\<close>

theorem C3_counterexample:
  "fst (pollBatchStatus [Inr (batch_with_status ''in_progress''),
                         Inr (batch_with_status ''completed'')])
     = [Sleep SleepDuration, Fetch, Sleep SleepDuration, Sleep SleepDuration, Fetch]
   \<and> fst (pollBatchStatus [Inr (batch_with_status ''in_progress''),
                           Inr (batch_with_status ''completed'')])
     \<noteq> spec_cadence 2"
  by (simp add: batch_with_status_def final_status_def spec_cadence_def numeral_2_eq_2)

text \<open>
  C3, amended: when the upstream answers \<open>pre\<close> (documents with a non-final status)
  and then \<open>r\<close> (a final status, or an error), the poller returns \<open>r\<close> at that fetch,
  whatever the upstream would answer afterwards; it has slept once before the first
  fetch and exactly twice, each time for \<open>SleepDuration\<close>, between any two consecutive
  fetches.
\<close>

theorem C3_poll_cadence:
  assumes "\<forall>b \<in> set pre. \<not> final_status (Status b)"
    and "ends_polling r"
  shows "pollBatchStatus (map Inr pre @ r # rest) = (code_cadence (length pre), Some r)"
  using assms
proof (induction pre)
  case Nil
  then show ?case by (simp add: pollBatchStatus_ends code_cadence_def)
next
  case (Cons b pre)
  then have "pollBatchStatus (map Inr pre @ r # rest) = (code_cadence (length pre), Some r)"
    by simp
  moreover have "\<not> final_status (Status b)" using Cons.prems by simp
  ultimately show ?case
    by (simp add: pollBatchStatus_pending code_cadence_def)
qed

theorem C3_poll_cadence_witness:
  "pollBatchStatus (map Inr [batch_with_status ''validating'', batch_with_status ''finalizing'']
                    @ Inr (batch_with_status ''cancelled'') # [Inl ''unused''])
   = ([Sleep SleepDuration, Fetch, Sleep SleepDuration,
       Sleep SleepDuration, Fetch, Sleep SleepDuration,
       Sleep SleepDuration, Fetch], Some (Inr (batch_with_status ''cancelled'')))"
proof -
  have h1: "\<forall>b \<in> set [batch_with_status ''validating'', batch_with_status ''finalizing''].
              \<not> final_status (Status b)"
    by (simp add: batch_with_status_def final_status_def)
  have h2: "ends_polling (Inr (batch_with_status ''cancelled''))"
    by (simp add: ends_polling_def batch_with_status_def final_status_def)
  show ?thesis
    using C3_poll_cadence [OF h1 h2, of "[Inl ''unused'']"]
    by (simp add: code_cadence_def)
qed

subsection \<open>Batching worker\<close>

lemma buffer_inv_reset: "buffer_inv cfg marshal (reset now)"
  by (simp add: buffer_inv_def reset_def)

lemma buffer_inv_emit:
  "buffer_inv cfg marshal w \<Longrightarrow> 0 < length (batch w) \<Longrightarrow> within_limits cfg marshal w"
  by (cases "batch w") (auto simp: buffer_inv_def within_limits_def)

lemma recv_request_inv:
  assumes "buffer_inv cfg marshal w"
  shows "buffer_inv cfg marshal (snd (recv_request cfg marshal now req w))"
  using assms
  by (auto simp: recv_request_def buffer_inv_def Let_def reset_def line_of_def split: sum.splits)

lemma recv_request_emit:
  assumes "buffer_inv cfg marshal w" "fst (recv_request cfg marshal now req w) = Some b"
  shows "within_limits cfg marshal b"
  using assms buffer_inv_emit [of cfg marshal w]
  by (auto simp: recv_request_def Let_def split: sum.splits if_splits)

lemma tick_inv:
  "buffer_inv cfg marshal w \<Longrightarrow> buffer_inv cfg marshal (snd (tick cfg now w))"
  by (simp add: tick_def buffer_inv_reset)

lemma tick_emit:
  "buffer_inv cfg marshal w \<Longrightarrow> fst (tick cfg now w) = Some b \<Longrightarrow> within_limits cfg marshal b"
  using buffer_inv_emit [of cfg marshal w]
  by (auto simp: tick_def split: if_splits)

lemma final_flush_emit:
  "buffer_inv cfg marshal w \<Longrightarrow> final_flush w = Some b \<Longrightarrow> within_limits cfg marshal b"
  using buffer_inv_emit [of cfg marshal w]
  by (auto simp: final_flush_def split: if_splits)

lemma set_opt_list: "b \<in> set (opt_list x) \<longleftrightarrow> x = Some b"
  by (cases x) auto

lemma worker_run_within_limits:
  "buffer_inv cfg marshal w \<Longrightarrow> b \<in> set (worker_run cfg marshal evs w) \<Longrightarrow>
   within_limits cfg marshal b"
proof (induction evs arbitrary: w)
  case Nil
  then show ?case by simp
next
  case (Cons e evs)
  show ?case
  proof (cases e)
    case (EvRequest now req)
    with Cons.prems have "fst (recv_request cfg marshal now req w) = Some b
        \<or> b \<in> set (worker_run cfg marshal evs (snd (recv_request cfg marshal now req w)))"
      by (auto simp: set_opt_list)
    then show ?thesis
      using Cons.IH recv_request_inv [OF Cons.prems(1)] recv_request_emit [OF Cons.prems(1)]
      by blast
  next
    case (EvTick now)
    with Cons.prems have "fst (tick cfg now w) = Some b
        \<or> b \<in> set (worker_run cfg marshal evs (snd (tick cfg now w)))"
      by (auto simp: set_opt_list)
    then show ?thesis
      using Cons.IH tick_inv [OF Cons.prems(1)] tick_emit [OF Cons.prems(1)]
      by blast
  next
    case EvShutdown
    with Cons.prems show ?thesis
      by (auto simp: set_opt_list final_flush_emit)
  qed
qed

text \<open>
  C2, as stated, fails when \<open>-max-batch-size\<close> is set below one: the test
  \<open>batchSize >= maxBatchSize\<close> hands over a buffer only when it is not empty, so the
  first request is always buffered, and the next timer case hands it over as a batch of
  one document, more than \<open>maxBatchSize = 0\<close>.
\<close>

theorem C2_counterexample:
  "map (\<lambda>b. int (length (batch b)))
     (worker_run (default_config\<lparr>maxBatchSize := 0\<rparr>) marshal_id
        [EvRequest 0 (request_with_id ''req_1''), EvTick tickInterval] (reset 0)) = [1]
   \<and> maxBatchSize (default_config\<lparr>maxBatchSize := 0\<rparr>) = 0"
  by (simp add: recv_request_def tick_def reset_def default_config_def marshal_id_def
      request_with_id_def maxBatchBytes_def Let_def tickInterval_def Millisecond_def Second_def)

text \<open>
  C2, amended: whatever cases the worker's loop takes and whenever, every buffer it
  hands to \<open>processBatch\<close> holds at least one and at most \<open>max 1 maxBatchSize\<close>
  requests, its payload at the hand-over is the lines of these requests, and it is at most
  \<open>maxBatchBytes\<close> long unless the buffer holds a single request.
\<close>

theorem C2_batch_limits:
  "\<forall>b \<in> set (worker_run cfg marshal evs (reset now0)).
     0 < length (batch b)
     \<and> int (length (batch b)) \<le> max 1 (maxBatchSize cfg)
     \<and> (int (length (jsonlData b)) \<le> maxBatchBytes cfg \<or> length (batch b) = 1)
     \<and> jsonlData b = concat (map (line_of marshal) (batch b))"
proof
  fix b
  assume "b \<in> set (worker_run cfg marshal evs (reset now0))"
  then have "within_limits cfg marshal b"
    using worker_run_within_limits buffer_inv_reset by blast
  then show "0 < length (batch b)
     \<and> int (length (batch b)) \<le> max 1 (maxBatchSize cfg)
     \<and> (int (length (jsonlData b)) \<le> maxBatchBytes cfg \<or> length (batch b) = 1)
     \<and> jsonlData b = concat (map (line_of marshal) (batch b))"
    unfolding within_limits_def by blast
qed

theorem C2_batch_limits_witness:
  "map (\<lambda>b. (length (batch b), length (jsonlData b)))
     (worker_run (default_config\<lparr>maxBatchSize := 2\<rparr>) marshal_id
        [EvRequest 0 (request_with_id ''req_1''), EvRequest 5 (request_with_id ''req_2''),
         EvRequest 7 (request_with_id ''req_3''), EvShutdown] (reset 0)) = [(2, 12), (1, 6)]"
  using C2_batch_limits [of "default_config\<lparr>maxBatchSize := 2\<rparr>" marshal_id
      "[EvRequest 0 (request_with_id ''req_1''), EvRequest 5 (request_with_id ''req_2''),
         EvRequest 7 (request_with_id ''req_3''), EvShutdown]" 0]
  by (simp add: recv_request_def tick_def reset_def default_config_def marshal_id_def final_flush_def
      request_with_id_def line_of_def maxBatchBytes_def Let_def tickInterval_def Millisecond_def Second_def)

text \<open>
  C5: the timer of the worker is created anew by each iteration of the loop, so it
  fires only when no envelope has been offered for 200 ms. Envelopes offered less than
  200 ms apart are all taken by the receive case, which does not look at the age of
  the buffer.
\<close>

lemma recv_request_no_flush:
  assumes "marshal req = Inr js"
    and "batchSize w < maxBatchSize cfg"
    and "batchBytes w + int (length js) + 1 \<le> maxBatchBytes cfg"
  shows "recv_request cfg marshal now req w =
     (None, w\<lparr>batch := batch w @ [req], jsonlData := jsonlData w @ js @ [CHR 0x0A],
              batchSize := batchSize w + 1,
              batchBytes := batchBytes w + (int (length js) + 1)\<rparr>)"
  using assms by (auto simp: recv_request_def Let_def)

lemma worker_clock_steady:
  assumes "marshal req = Inr js"
    and "0 \<le> gap" and "gap < tickInterval"
    and "now \<le> t" and "t < now + tickInterval"
    and "batchSize w + int (Suc n) \<le> maxBatchSize cfg"
    and "batchBytes w + int (Suc n) * (int (length js) + 1) \<le> maxBatchBytes cfg"
  shows "worker_clock (Suc n) cfg marshal (steady_arrivals (Suc n) req t gap) now w =
     ([], t + int n * gap,
      w\<lparr>batch := batch w @ replicate (Suc n) req,
        jsonlData := jsonlData w @ concat (replicate (Suc n) (js @ [CHR 0x0A])),
        batchSize := batchSize w + int (Suc n),
        batchBytes := batchBytes w + int (Suc n) * (int (length js) + 1)\<rparr>)"
  using assms
proof (induction n arbitrary: t now w)
  case 0
  then show ?case
    by (simp add: recv_request_no_flush)
next
  case (Suc n)
  let ?w1 = "w\<lparr>batch := batch w @ [req], jsonlData := jsonlData w @ js @ [CHR 0x0A],
              batchSize := batchSize w + 1,
              batchBytes := batchBytes w + (int (length js) + 1)\<rparr>"
  have bytes: "batchBytes w + int (length js) + 1 \<le> maxBatchBytes cfg"
  proof -
    define L where "L = int (length js) + 1"
    define P where "P = int (Suc (Suc n)) * L"
    have "1 * L \<le> int (Suc (Suc n)) * L"
      by (rule mult_right_mono) (simp_all add: L_def)
    then have "L \<le> P" by (simp add: P_def)
    moreover have "batchBytes w + P \<le> maxBatchBytes cfg"
      using Suc.prems(7) by (simp add: P_def L_def)
    ultimately show ?thesis by (simp add: L_def)
  qed
  have step: "recv_request cfg marshal t req w = (None, ?w1)"
    using Suc.prems(1,6) bytes by (simp add: recv_request_no_flush)
  have IH: "worker_clock (Suc n) cfg marshal (steady_arrivals (Suc n) req (t + gap) gap) t ?w1 =
     ([], t + gap + int n * gap,
      ?w1\<lparr>batch := batch ?w1 @ replicate (Suc n) req,
        jsonlData := jsonlData ?w1 @ concat (replicate (Suc n) (js @ [CHR 0x0A])),
        batchSize := batchSize ?w1 + int (Suc n),
        batchBytes := batchBytes ?w1 + int (Suc n) * (int (length js) + 1)\<rparr>)"
  proof (rule Suc.IH)
    show "marshal req = Inr js" by (rule Suc.prems(1))
    show "0 \<le> gap" by (rule Suc.prems(2))
    show "gap < tickInterval" by (rule Suc.prems(3))
    show "t \<le> t + gap" using Suc.prems(2) by simp
    show "t + gap < t + tickInterval" using Suc.prems(3) by simp
    show "batchSize ?w1 + int (Suc n) \<le> maxBatchSize cfg" using Suc.prems(6) by simp
    show "batchBytes ?w1 + int (Suc n) * (int (length js) + 1) \<le> maxBatchBytes cfg"
      using Suc.prems(7) by (simp add: algebra_simps)
  qed
  have "worker_clock (Suc (Suc n)) cfg marshal (steady_arrivals (Suc (Suc n)) req t gap) now w
      = worker_clock (Suc n) cfg marshal (steady_arrivals (Suc n) req (t + gap) gap) t ?w1"
    using Suc.prems(4,5) step by (simp add: max_def)
  then show ?case
    using IH by (simp add: algebra_simps replicate_append_same)
qed

lemma maxBatchBytes_default: "maxBatchBytes default_config = 26214400"
  by (simp add: maxBatchBytes_def default_config_def)

text \<open>
  C5 at the default settings: fifty envelopes offered 100 ms apart from time 0. At
  4900 ms the buffer has been non-empty for 4900 ms, more than \<open>maxHoldBatchSend\<close>
  plus one timer interval (4200 ms), and nothing has been handed to \<open>processBatch\<close>.
\<close>

theorem C5_steady_arrivals_hold_buffer:
  "worker_clock 50 default_config marshal_id
      (steady_arrivals 50 (request_with_id ''req_1'') 0 (100 * Millisecond)) 0 (reset 0)
   = ([], 4900 * Millisecond,
      \<lparr>batch = replicate 50 (request_with_id ''req_1''),
       jsonlData = concat (replicate 50 (''req_1'' @ [CHR 0x0A])),
       batchSize = 50, batchBytes = 300, batchStart = 0\<rparr>)
   \<and> maxHoldBatchSend default_config + tickInterval \<le> 4900 * Millisecond"
proof -
  have m: "marshal_id (request_with_id ''req_1'') = Inr ''req_1''"
    by (simp add: marshal_id_def request_with_id_def)
  have "worker_clock (Suc 49) default_config marshal_id
      (steady_arrivals (Suc 49) (request_with_id ''req_1'') 0 (100 * Millisecond)) 0 (reset 0)
     = ([], 0 + int 49 * (100 * Millisecond),
      (reset 0)\<lparr>batch := batch (reset 0) @ replicate (Suc 49) (request_with_id ''req_1''),
        jsonlData := jsonlData (reset 0) @ concat (replicate (Suc 49) (''req_1'' @ [CHR 0x0A])),
        batchSize := batchSize (reset 0) + int (Suc 49),
        batchBytes := batchBytes (reset 0) + int (Suc 49) * (int (length ''req_1'') + 1)\<rparr>)"
    by (rule worker_clock_steady [where js = "''req_1''"])
      (simp_all add: m, simp_all add: tickInterval_def Millisecond_def reset_def maxBatchBytes_default,
       simp_all add: default_config_def)
  then show ?thesis
    by (simp add: reset_def default_config_def tickInterval_def Millisecond_def Second_def)
qed

subsection \<open>Deliveries on the pending channels\<close>

lemma and_then_Done [simp]: "and_then (Done, s) f = f s"
  by (simp add: and_then_def)

lemma sent_all_Nil [simp]: "sent_all [] s = s"
  by (simp add: sent_all_def)

lemma sent_all_sel [simp]:
  "responseChanMap (sent_all dl s) = responseChanMap s"
  "stats (sent_all dl s) = stats s"
  "calls (sent_all dl s) = calls s"
  "deleting (sent_all dl s) = deleting s"
  "batchMap (sent_all dl s) = batchMap s"
  by (simp_all add: sent_all_def)


lemma reg_inj_upd [simp]:
  "reg_inj (s\<lparr>stats := st\<rparr>) = reg_inj s"
  "reg_inj (s\<lparr>calls := cs\<rparr>) = reg_inj s"
  "reg_inj (s\<lparr>deleting := ds\<rparr>) = reg_inj s"
  "reg_inj (s\<lparr>batchMap := bm\<rparr>) = reg_inj s"
  "reg_inj (sent_all dl s) = reg_inj s"
  by (simp_all add: reg_inj_def)

lemma awaited_ids_upd [simp]:
  "awaited_ids (s\<lparr>stats := st\<rparr>) ids = awaited_ids s ids"
  "awaited_ids (s\<lparr>calls := cs\<rparr>) ids = awaited_ids s ids"
  "awaited_ids (s\<lparr>deleting := ds\<rparr>) ids = awaited_ids s ids"
  "awaited_ids (s\<lparr>batchMap := bm\<rparr>) ids = awaited_ids s ids"
  by (simp_all add: awaited_ids_def)

lemma unbuffered_upd [simp]:
  "unbuffered (s\<lparr>stats := st\<rparr>) = unbuffered s"
  "unbuffered (s\<lparr>calls := cs\<rparr>) = unbuffered s"
  "unbuffered (s\<lparr>deleting := ds\<rparr>) = unbuffered s"
  "unbuffered (s\<lparr>batchMap := bm\<rparr>) = unbuffered s"
  by (simp_all add: unbuffered_def)



















lemma line_deliveries_simps [simp]:
  "line_deliveries [] = []"
  "line_deliveries (h # hs) = (rr_CustomID h, line_value h) # line_deliveries hs"
  "line_deliveries (hs @ hs') = line_deliveries hs @ line_deliveries hs'"
  by (simp_all add: line_deliveries_def)

lemma map_fst_line_deliveries [simp]: "map fst (line_deliveries hs) = map rr_CustomID hs"
  by (simp add: line_deliveries_def comp_def)

lemma hits_registered:
  "rr \<in> set (hits unmarshal reg ls) \<Longrightarrow> reg (rr_CustomID rr) \<noteq> None"
  by (induction ls) (auto split: if_splits option.splits)

lemma file_hits_registered:
  "rr \<in> set (file_hits up unmarshal auth reg fs) \<Longrightarrow> reg (rr_CustomID rr) \<noteq> None"
proof (induction fs)
  case Nil
  then show ?case by simp
next
  case (Cons f fs)
  then show ?case
    by (cases f) (auto split: sum.splits dest: hits_registered)
qed





lemma map_fst_error_deliveries [simp]: "map fst (error_deliveries msg ids) = ids"
  by (simp add: error_deliveries_def comp_def)

lemma errors_sent_eq:
  "errors_sent msg ids s =
     (sent_all (error_deliveries msg ids) s)
       \<lparr>stats := (stats s)\<lparr>synthesizedErrResponses :=
                            synthesizedErrResponses (stats s) + of_nat (length ids)\<rparr>\<rparr>"
  by (simp add: errors_sent_def)

lemma errors_sent_sel [simp]:
  "calls (errors_sent msg ids s) = calls s"
  "deleting (errors_sent msg ids s) = deleting s"
  "batchMap (errors_sent msg ids s) = batchMap s"
  "responseChanMap (errors_sent msg ids s) = responseChanMap s"
  "synthesizedErrResponses (stats (errors_sent msg ids s))
     = synthesizedErrResponses (stats s) + of_nat (length ids)"
  by (simp_all add: errors_sent_eq)





subsection \<open>What the executor leaves unchanged\<close>

lemma executor_frame_refl [simp]: "executor_frame s s"
  by (simp add: executor_frame_def)

lemma executor_frame_trans:
  "executor_frame s s' \<Longrightarrow> executor_frame s' s'' \<Longrightarrow> executor_frame s s''"
  by (simp add: executor_frame_def)

lemma executor_frame_upd [simp]:
  "executor_frame s (s'\<lparr>calls := cs\<rparr>) = executor_frame s s'"
  "executor_frame s (s'\<lparr>batchMap := bm\<rparr>) = executor_frame s s'"
  "executor_frame s (s'\<lparr>deleting := ds\<rparr>) = executor_frame s s'"
  "executor_frame s (s'\<lparr>respChans := rc\<rparr>) = executor_frame s s'"
  "executor_frame s (s'\<lparr>stats := trackBatchStart (stats s')\<rparr>) = executor_frame s s'"
  "executor_frame s (s'\<lparr>stats := trackBatchEnd b (stats s')\<rparr>) = executor_frame s s'"
  "executor_frame s (s'\<lparr>stats := trackSynthesizedErrorResponse (stats s')\<rparr>) = executor_frame s s'"
  by (simp_all add: executor_frame_def trackBatchStart_def trackBatchEnd_def
      trackSynthesizedErrorResponse_def)

lemma and_then_frame:
  assumes "executor_frame s (snd r)" "\<And>s'. executor_frame s s' \<Longrightarrow> executor_frame s (snd (f s'))"
  shows "executor_frame s (snd (and_then r f))"
  using assms by (simp add: and_then_def)

lemma send_and_close_frame: "executor_frame s (snd (send_and_close a v s))"
  by (simp add: send_and_close_def split: send_result.splits option.splits)

lemma send_and_close_frame': "executor_frame s0 s \<Longrightarrow> executor_frame s0 (snd (send_and_close a v s))"
  using send_and_close_frame executor_frame_trans by blast

lemma sendErrorResponse_frame:
  "executor_frame s0 s \<Longrightarrow> executor_frame s0 (snd (sendErrorResponse c msg s))"
  unfolding sendErrorResponse_def
  by (rule and_then_frame) (auto split: option.splits intro: send_and_close_frame')

lemma range_ids_frame:
  assumes "\<And>c s. executor_frame s0 s \<Longrightarrow> executor_frame s0 (snd (body c s))"
  shows "executor_frame s0 s \<Longrightarrow> executor_frame s0 (snd (range_ids body ids s))"
proof (induction ids arbitrary: s)
  case Nil
  then show ?case by simp
next
  case (Cons c ids)
  show ?case
    by (simp, rule and_then_frame) (use Cons assms in auto)
qed

lemma sendErrorToAllRequests_frame:
  "executor_frame s0 s \<Longrightarrow> executor_frame s0 (snd (sendErrorToAllRequests ids msg s))"
  unfolding sendErrorToAllRequests_def
  by (rule range_ids_frame) (auto intro: sendErrorResponse_frame)

lemma processLines_frame:
  "executor_frame s0 s \<Longrightarrow> executor_frame s0 (fst (snd (processLines unmarshal ls ids s)))"
proof (induction ls arbitrary: ids s)
  case Nil
  then show ?case by simp
next
  case (Cons line ls)
  show ?case
  proof (cases "length line = 0")
    case True
    then show ?thesis using Cons by simp
  next
    case ne: False
    show ?thesis
    proof (cases "unmarshal line")
      case None
      then show ?thesis using Cons ne by simp
    next
      case (Some rr)
      show ?thesis
      proof (cases "responseChanMap s (rr_CustomID rr)")
        case None
        then show ?thesis using Cons ne Some by simp
      next
        case (Some a)
        obtain oc s' where r: "send_and_close a (line_value rr) s = (oc, s')"
          by (cases "send_and_close a (line_value rr) s")
        have f: "executor_frame s0 s'"
          using send_and_close_frame' [OF Cons.prems, of a "line_value rr"] r by simp
        show ?thesis
          using ne \<open>unmarshal line = Some rr\<close> Some r f Cons.IH [OF f]
          by (cases oc) simp_all
      qed
    qed
  qed
qed

lemma processFiles_frame:
  "executor_frame s0 s \<Longrightarrow> executor_frame s0 (fst (snd (processFiles up unmarshal auth fs ids s)))"
proof (induction fs arbitrary: ids s)
  case Nil
  then show ?case by simp
next
  case (Cons f fs)
  show ?case
  proof (cases f)
    case None
    then show ?thesis using Cons by simp
  next
    case (Some fileID)
    show ?thesis
    proof (cases "readFile up fileID auth")
      case (Inl err)
      then show ?thesis using Cons Some by simp
    next
      case (Inr content)
      let ?s1 = "s\<lparr>calls := calls s @ [ReadFile fileID auth],
                    deleting := deleting s @ [DeleteFile fileID auth]\<rparr>"
      obtain oc s' ids' where r: "processFileContent unmarshal content ids ?s1 = (oc, s', ids')"
        by (metis prod_cases3)
      have "executor_frame s0 ?s1" using Cons.prems by simp
      then have f: "executor_frame s0 s'"
        using processLines_frame [of s0 ?s1 unmarshal "split_lines content" ids] r
        by (simp add: processFileContent_def)
      show ?thesis
        using Some Inr r f Cons.IH [OF f] by (cases oc) simp_all
    qed
  qed
qed

lemma processBatchResponse_frame:
  "executor_frame s (snd (processBatchResponse up unmarshal batchID auth ids s))"
proof -
  let ?s1 = "s\<lparr>calls := calls s @ [PollBatch batchID auth (fst (pollBatchStatus (getBatchResponse up batchID auth)))]\<rparr>"
  have f1: "executor_frame s ?s1" by simp
  have "executor_frame s (snd (processBatchResponse_body up unmarshal batchID auth ids s))"
  proof (cases "snd (pollBatchStatus (getBatchResponse up batchID auth))")
    case None
    then show ?thesis by (simp add: processBatchResponse_body_def Let_def)
  next
    case (Some r)
    show ?thesis
    proof (cases r)
      case (Inl err)
      have "executor_frame s (snd (and_then (sendErrorToAllRequests ids (''Batch processing failed: '' @ err) ?s1)
               (\<lambda>s'. (Done, s'\<lparr>stats := trackBatchEnd False (stats s')\<rparr>))))"
        by (rule and_then_frame) (auto intro: sendErrorToAllRequests_frame)
      then show ?thesis using Some Inl by (simp add: processBatchResponse_body_def Let_def)
    next
      case (Inr br)
      obtain oc s2 ids' where r: "processFiles up unmarshal auth [OutputFileID br, ErrorFileID br] ids ?s1
           = (oc, s2, ids')"
        by (metis prod_cases3)
      have f2: "executor_frame s s2"
        using processFiles_frame [OF f1, of up unmarshal auth "[OutputFileID br, ErrorFileID br]" ids] r
        by simp
      have "executor_frame s (snd (and_then
                    (range_ids (\<lambda>customID. sendErrorResponse customID (no_response_msg customID))
                       ids' s2)
                    (\<lambda>s'. (Done, s'\<lparr>stats := trackBatchEnd True (stats s')\<rparr>))))"
        by (rule and_then_frame) (auto intro: range_ids_frame sendErrorResponse_frame f2)
      then show ?thesis
        using Some Inr r f2 by (cases oc) (simp_all add: processBatchResponse_body_def Let_def)
    qed
  qed
  then show ?thesis
    by (auto simp: processBatchResponse_def split: prod.splits outcome.splits)
qed

lemma processBatch_frame:
  "executor_frame s (fst (snd (processBatch up jsonl auth endpoint ids s)))"
proof -
  have a: "executor_frame s (snd (and_then (sendErrorToAllRequests ids msg (s\<lparr>stats := trackBatchStart (stats s), calls := cs\<rparr>))
               (\<lambda>s'. (Done, s'\<lparr>stats := trackBatchEnd False (stats s')\<rparr>))))" for msg cs
  proof (rule and_then_frame)
    have "executor_frame s (s\<lparr>stats := trackBatchStart (stats s), calls := cs\<rparr>)"
      by (simp add: executor_frame_def trackBatchStart_def)
    then show "executor_frame s (snd (sendErrorToAllRequests ids msg (s\<lparr>stats := trackBatchStart (stats s), calls := cs\<rparr>)))"
      by (rule sendErrorToAllRequests_frame)
  qed auto
  have b: "executor_frame s (s\<lparr>stats := trackBatchStart (stats s), calls := cs, batchMap := bm\<rparr>)" for cs bm
    by (simp add: executor_frame_def trackBatchStart_def)
  show ?thesis
  proof (cases "uploadFile up jsonl auth")
    case (Inl err)
    then show ?thesis
      using a [of "''Failed to upload file: '' @ err" "calls s @ [UploadFile jsonl auth]"]
      by (simp add: processBatch_def Let_def case_prod_beta)
  next
    case (Inr fileID)
    show ?thesis
    proof (cases "createBatch up fileID auth endpoint")
      case (Inl err)
      then show ?thesis
        using Inr a [of "''Failed to create batch: '' @ err"
            "calls s @ [UploadFile jsonl auth, CreateBatch fileID auth endpoint, DeleteFile fileID auth]"]
        by (simp add: processBatch_def Let_def case_prod_beta)
    next
      case created: (Inr batchID)
      then show ?thesis
        using Inr b by (simp add: processBatch_def Let_def)
    qed
  qed
qed

lemma run_task_frame:
  assumes "run_task cdc up payload i s = Some s'"
  shows "requestsFailed (stats s') = requestsFailed (stats s) \<and> workers s' = workers s"
proof -
  from assms have i: "i < length (tasks s)" by (simp add: run_task_def split: if_splits)
  show ?thesis
  proof (cases "tasks s ! i")
    case (ProcessBatch sl auth endpoint ids)
    obtain oc s1 sp where r: "processBatch up payload auth endpoint ids s = (oc, s1, sp)"
      by (metis prod_cases3)
    have "executor_frame s s1" using processBatch_frame [of s up payload auth endpoint ids] r by simp
    then show ?thesis
      using assms i ProcessBatch r
      by (cases oc) (auto simp: run_task_def executor_frame_def split: if_splits)
  next
    case (ProcessBatchResponse batchID auth ids)
    obtain oc s1 where r: "processBatchResponse up (json_Unmarshal_line cdc) batchID auth ids s = (oc, s1)"
      by (cases "processBatchResponse up (json_Unmarshal_line cdc) batchID auth ids s")
    have "executor_frame s s1"
      using processBatchResponse_frame [of s up "json_Unmarshal_line cdc" batchID auth ids] r by simp
    then show ?thesis
      using assms i ProcessBatchResponse r
      by (cases oc) (auto simp: run_task_def executor_frame_def)
  qed
qed

subsection \<open>What the executor does to the pending channels\<close>

lemma advance_refl [simp]: "advance s s"
  by (simp add: advance_def)


lemma advance_upd [simp]:
  "advance s (s'\<lparr>calls := cs\<rparr>) = advance s s'"
  "advance s (s'\<lparr>deleting := ds\<rparr>) = advance s s'"
  "advance s (s'\<lparr>batchMap := bm\<rparr>) = advance s s'"
  "advance s (s'\<lparr>stats := st\<rparr>) = advance s s'"
  by (simp_all add: advance_def)











subsection \<open>The pending channels in the states an execution reaches\<close>

















subsection \<open>Example states\<close>

lemma two_parked_facts:
  "responseChanMap two_parked ''req_7'' = Some 0"
  "responseChanMap two_parked ''req_8'' = Some 1"
  "respChans two_parked 0 = \<lparr>chan_cap = 0, chan_buf = [], chan_closed = False, chan_recvq = Parked\<rparr>"
  "respChans two_parked (Suc 0) = \<lparr>chan_cap = 0, chan_buf = [], chan_closed = False, chan_recvq = Parked\<rparr>"
  "tasks two_parked =
     [ProcessBatch \<lparr>sl_bytes = ''req_7'' @ [CHR 0x0A] @ ''req_8'' @ [CHR 0x0A],
                    sl_worker = 0, sl_writes = 2\<rparr>
        ''Bearer k'' ''/v1/chat/completions'' [''req_7'', ''req_8'']]"
  by (code_simp)+


subsection \<open>Batch executor\<close>



















subsection \<open>Synthesized-error counter\<close>

text \<open>
  C8, as stated, fails: \<open>sendErrorResponse\<close> calls \<open>trackSynthesizedErrorResponse\<close>
  also when it has found no channel for the id. In the execution \<open>collision_run\<close> two
  requests in different lanes draw the same id; the result of the first batch goes to
  the second handler, which removes the registration when it returns; the second batch
  then finds no channel for its id, for its result line and for its synthesized error.
  The counter ends at 1, the first handler has received nothing and the second a
  result body: no synthesized error has been delivered.
\<close>

theorem C8_counterexample:
  "map_option (\<lambda>s. (synthesizedErrResponses (stats s),
                     map (\<lambda>h. chan_recvq (respChans s (h_responseChan h))) (handlers s)))
     (run default_config codec_ex collision_run gstate0)
   = Some (1, [Parked, Got (Str ''req_7'')])"
  by code_simp

text \<open>
  C8, amended: the counter advances by exactly one in each call of
  \<open>sendErrorResponse\<close> that returns, and not at all in a call that panics or blocks,
  which leaves the state as it was. A call for an id that has no pending entry returns
  and delivers nothing; a call for an id whose channel is awaited returns having
  delivered the synthesized error document on it.
\<close>

theorem C8_counter_per_call:
  "synthesizedErrResponses (stats (snd (sendErrorResponse customID errorMsg s)))
     = synthesizedErrResponses (stats s)
       + (if fst (sendErrorResponse customID errorMsg s) = Done then 1 else 0)
   \<and> (fst (sendErrorResponse customID errorMsg s) \<noteq> Done \<longrightarrow>
        snd (sendErrorResponse customID errorMsg s) = s)
   \<and> (responseChanMap s customID = None \<longrightarrow>
        fst (sendErrorResponse customID errorMsg s) = Done
        \<and> respChans (snd (sendErrorResponse customID errorMsg s)) = respChans s)
   \<and> (\<forall>a. responseChanMap s customID = Some a \<and> awaiting_chan (respChans s a) \<longrightarrow>
        fst (sendErrorResponse customID errorMsg s) = Done
        \<and> delivered s (snd (sendErrorResponse customID errorMsg s)) customID
            (synthesized_error errorMsg))"
  by (auto simp: sendErrorResponse_def send_and_close_def chan_send_def chan_close_def
      and_then_def trackSynthesizedErrorResponse_def delivered_def handed_over_def
      awaiting_chan_def split: option.splits)

theorem C8_counter_per_call_witness:
  "responseChanMap gstate0 ''req_7'' = None
   \<and> fst (sendErrorResponse ''req_7'' ''boom'' gstate0) = Done
   \<and> respChans (snd (sendErrorResponse ''req_7'' ''boom'' gstate0)) = respChans gstate0
   \<and> synthesizedErrResponses (stats (snd (sendErrorResponse ''req_7'' ''boom'' gstate0))) = 1
   \<and> responseChanMap two_parked ''req_7'' = Some 0
   \<and> awaiting_chan (respChans two_parked 0)
   \<and> fst (sendErrorResponse ''req_7'' ''boom'' two_parked) = Done
   \<and> delivered two_parked (snd (sendErrorResponse ''req_7'' ''boom'' two_parked)) ''req_7''
        (synthesized_error ''boom'')
   \<and> synthesizedErrResponses (stats (snd (sendErrorResponse ''req_7'' ''boom'' two_parked)))
        = synthesizedErrResponses (stats two_parked) + 1"
proof -
  have a: "responseChanMap gstate0 ''req_7'' = None"
    by (simp add: gstate0_def)
  have b: "responseChanMap two_parked ''req_7'' = Some 0 \<and> awaiting_chan (respChans two_parked 0)"
    by (simp add: two_parked_facts awaiting_chan_def)
  have c: "synthesizedErrResponses (stats gstate0) = 0"
    by (simp add: gstate0_def stats0_def)
  show ?thesis
    using C8_counter_per_call [of "''req_7''" "''boom''" gstate0]
      C8_counter_per_call [of "''req_7''" "''boom''" two_parked] a b c
    by auto
qed

subsection \<open>Correlation ids\<close>

lemma of_char_digit_char: "d < 10 \<Longrightarrow> of_char (digit_char d) = (48 + d :: nat)"
  by (simp add: digit_char_def)

lemma decimal_small: "n < 10 \<Longrightarrow> decimal n = [digit_char n]"
  by (simp add: decimal.simps)

lemma decimal_large: "\<not> n < 10 \<Longrightarrow> decimal n = decimal (n div 10) @ [digit_char (n mod 10)]"
  by (subst decimal.simps) simp

lemma undecimal_decimal: "undecimal (decimal n) = n"
proof (induction n rule: decimal.induct)
  case (1 n)
  show ?case
  proof (cases "n < 10")
    case True
    then show ?thesis
      by (simp add: decimal_small undecimal_def of_char_digit_char)
  next
    case False
    then have "undecimal (decimal (n div 10)) = n div 10" using 1 by simp
    then show ?thesis
      using False by (simp add: decimal_large undecimal_def of_char_digit_char)
  qed
qed

lemma decimal_inj: "decimal n = decimal m \<Longrightarrow> n = m"
  by (metis undecimal_decimal)

lemma digit_char_table:
  "digit_char 0 = CHR ''0''" "digit_char (Suc 0) = CHR ''1''" "digit_char 2 = CHR ''2''"
  "digit_char 3 = CHR ''3''" "digit_char 4 = CHR ''4''" "digit_char 5 = CHR ''5''"
  "digit_char 6 = CHR ''6''" "digit_char 7 = CHR ''7''" "digit_char 8 = CHR ''8''"
  "digit_char 9 = CHR ''9''"
  by code_simp+

lemma digit_char_digit: "d < 10 \<Longrightarrow> digit_char d \<in> set ''0123456789''"
proof -
  assume "d < 10"
  then have "d = 0 \<or> d = 1 \<or> d = 2 \<or> d = 3 \<or> d = 4 \<or> d = 5 \<or> d = 6 \<or> d = 7 \<or> d = 8 \<or> d = 9"
    by arith
  then show ?thesis
    by (elim disjE) (simp_all add: digit_char_table)
qed

lemma decimal_digits: "c \<in> set (decimal n) \<Longrightarrow> c \<in> set ''0123456789''"
proof (induction n rule: decimal.induct)
  case (1 n)
  show ?case
  proof (cases "n < 10")
    case True
    then show ?thesis using "1.prems" digit_char_digit [of n] by (simp add: decimal_small)
  next
    case False
    then show ?thesis
      using 1 digit_char_digit [of "n mod 10"] by (auto simp: decimal_large)
  qed
qed

lemma decimal_nonempty: "decimal n \<noteq> []"
  by (cases "n < 10") (simp_all add: decimal_small decimal_large)

lemma decimal_length: "n < 10 ^ Suc k \<Longrightarrow> length (decimal n) \<le> Suc k"
proof (induction k arbitrary: n)
  case 0
  then show ?case by (simp add: decimal_small)
next
  case (Suc k)
  show ?case
  proof (cases "n < 10")
    case True
    then show ?thesis by (simp add: decimal_small)
  next
    case False
    have "n div 10 < 10 ^ Suc k" using Suc.prems by (simp add: less_mult_imp_div_less)
    then show ?thesis using Suc.IH False by (simp add: decimal_large)
  qed
qed

lemma decimal_no_minus: "decimal n \<noteq> CHR ''-'' # ds"
proof
  assume "decimal n = CHR ''-'' # ds"
  then have "CHR ''-'' \<in> set (decimal n)" by simp
  then have "CHR ''-'' \<in> set ''0123456789''" by (rule decimal_digits)
  then show False by simp
qed

lemma sprint_d_inj: "sprint_d i = sprint_d j \<Longrightarrow> i = j"
proof -
  assume eq: "sprint_d i = sprint_d j"
  consider "i < 0" "j < 0" | "i < 0" "\<not> j < 0" | "\<not> i < 0" "j < 0" | "\<not> i < 0" "\<not> j < 0"
    by blast
  then show ?thesis
  proof cases
    case 1
    then have "nat (- i) = nat (- j)" using eq decimal_inj by (simp add: sprint_d_def)
    then show ?thesis using 1 by simp
  next
    case 2
    then have "decimal (nat j) = CHR ''-'' # decimal (nat (- i))"
      using eq by (simp add: sprint_d_def)
    then show ?thesis using decimal_no_minus by blast
  next
    case 3
    then have "decimal (nat i) = CHR ''-'' # decimal (nat (- j))"
      using eq by (simp add: sprint_d_def)
    then show ?thesis using decimal_no_minus by blast
  next
    case 4
    then have "nat i = nat j" using eq decimal_inj by (simp add: sprint_d_def)
    then show ?thesis using 4 by simp
  qed
qed

text \<open>
  C9, as stated, fails: the id is a function of the number drawn, and nothing compares
  it with the ids in flight. Two requests that draw the same number while both are in
  flight get the same id, and the registration of the second replaces that of the
  first in the pending registry.
\<close>

theorem C9_counterexample:
  "map_option (\<lambda>s. (map h_customID (handlers s), map h_pc (handlers s),
                     map (\<lambda>h. Body (h_req h)) (handlers s),
                     responseChanMap s ''req_7''))
     (run default_config codec_ex
        [Request 0 (post ''/v1/chat/completions'' ''Hi'') 7,
         Request 1 (post ''/v1/chat/completions'' ''Aye'') 7] gstate0)
   = Some ([''req_7'', ''req_7''], [AtSend 0, AtSend 0],
           [MapSI [(''prompt'', Str ''Hi'')], MapSI [(''prompt'', Str ''Aye'')]], Some 1)"
  by code_simp

text \<open>
  C9, amended: every generated correlation id is \<open>req_\<close> followed by the decimal
  digits of the number drawn, at most six digits for a draw of \<open>rand.Intn(1000000)\<close>;
  the ids of two requests are equal exactly when their draws are equal.
\<close>

theorem C9_id_format:
  "customID_of draw = ''req_'' @ sprint_d draw
   \<and> (0 \<le> draw \<and> draw < 1000000 \<longrightarrow>
        sprint_d draw \<noteq> [] \<and> length (sprint_d draw) \<le> 6
        \<and> (\<forall>c \<in> set (sprint_d draw). c \<in> set ''0123456789''))
   \<and> (customID_of d1 = customID_of d2 \<longleftrightarrow> d1 = d2)"
proof (intro conjI impI)
  show "customID_of draw = ''req_'' @ sprint_d draw"
    by (simp add: customID_of_def)
next
  assume r: "0 \<le> draw \<and> draw < 1000000"
  then have s: "sprint_d draw = decimal (nat draw)" by (simp add: sprint_d_def)
  show "sprint_d draw \<noteq> []" using s decimal_nonempty by simp
  have "nat draw < 1000000" using r by linarith
  then have "nat draw < 10 ^ Suc 5" by simp
  then have "length (decimal (nat draw)) \<le> Suc 5" by (rule decimal_length)
  then show "length (sprint_d draw) \<le> 6" using s by simp
  show "\<forall>c \<in> set (sprint_d draw). c \<in> set ''0123456789''"
    using s decimal_digits by auto
next
  show "customID_of d1 = customID_of d2 \<longleftrightarrow> d1 = d2"
    using sprint_d_inj by (auto simp: customID_of_def)
qed

theorem C9_id_format_witness:
  "customID_of 120 = ''req_120'' \<and> (0::int) \<le> 120 \<and> (120::int) < 1000000
   \<and> length (sprint_d 120) \<le> 6 \<and> customID_of 120 \<noteq> customID_of 121"
proof -
  have "sprint_d 120 = ''120''" by code_simp
  then show ?thesis
    using C9_id_format [of 120 120 121] by auto
qed

subsection \<open>Request statistics\<close>

lemma handler_start_failed:
  "requestsFailed (stats (handler_start cdc now r draw s)) = requestsFailed (stats s)"
  by (simp add: handler_start_def Let_def trackRequestStart_def split: sum.splits option.splits)

lemma step_failed:
  "step cfg cdc a s = Some s' \<Longrightarrow> requestsFailed (stats s') = requestsFailed (stats s)"
proof (cases a)
  case (Request now r draw)
  assume "step cfg cdc a s = Some s'"
  then show ?thesis using Request handler_start_failed by auto
next
  case (HandlerSend i)
  assume "step cfg cdc a s = Some s'"
  then show ?thesis using HandlerSend
    by (auto simp: handler_send_def split: if_splits handler_pc.splits send_result.splits)
next
  case (HandlerRecv i)
  assume "step cfg cdc a s = Some s'"
  then show ?thesis using HandlerRecv by (auto simp: handler_recv_def split: if_splits)
next
  case (HandlerFinish i)
  assume "step cfg cdc a s = Some s'"
  then show ?thesis using HandlerFinish
    by (auto simp: handler_finish_def trackRequestEnd_def split: if_splits recv_state.splits)
next
  case (WorkerRecv j now)
  assume "step cfg cdc a s = Some s'"
  then show ?thesis using WorkerRecv
    by (auto simp: worker_recv_def split: if_splits list.splits prod.splits)
next
  case (WorkerTick j now)
  assume "step cfg cdc a s = Some s'"
  then show ?thesis using WorkerTick
    by (auto simp: worker_tick_def split: if_splits prod.splits)
next
  case (WorkerShutdown j)
  assume "step cfg cdc a s = Some s'"
  then show ?thesis using WorkerShutdown by (auto simp: worker_shutdown_def split: if_splits)
next
  case MainShutdown
  assume "step cfg cdc a s = Some s'"
  then show ?thesis using MainShutdown by (auto simp: main_shutdown_def split: if_splits)
next
  case (RunTask up payload i)
  assume "step cfg cdc a s = Some s'"
  then show ?thesis using RunTask run_task_frame by auto
qed

lemma run_failed:
  "run cfg cdc as s = Some s' \<Longrightarrow> requestsFailed (stats s') = requestsFailed (stats s)"
proof (induction as arbitrary: s)
  case Nil
  then show ?case by simp
next
  case (Cons a as)
  then obtain s1 where s1: "step cfg cdc a s = Some s1" "run cfg cdc as s1 = Some s'"
    by (auto split: option.splits)
  then show ?case using Cons.IH step_failed by metis
qed

lemma synth_facts:
  "map_option (\<lambda>s. (chan_recvq (respChans s 0), requestsSuccessful (stats s),
                     synthesizedErrResponses (stats s),
                     map_option (\<lambda>s'. map h_pc (handlers s')) (handler_finish 0 s)))
     (run default_config codec_ex synth_run gstate0)
   = Some (Got (synthesized_error ''Failed to upload file: boom''), 0, 1, Some [Finished])"
  by code_simp

text \<open>
  C10: in every execution from the start of the process the counter \<open>requestsFailed\<close> is
  0, and so is \<open>requests.failed\<close> in the document of \<open>getStats\<close>; a handler that has
  received a value, whatever the value, ends with \<open>trackRequestEnd(true, ...)\<close>, which
  advances \<open>requestsSuccessful\<close> by one and leaves \<open>requestsFailed\<close> at 0.
\<close>

theorem C10_requests_failed_zero:
  assumes "run cfg cdc as gstate0 = Some s"
  shows "requestsFailed (stats s) = 0
   \<and> Requests_Failed (getStats (stats s)) = 0
   \<and> (\<forall>i s'. handler_finish i s = Some s' \<longrightarrow>
         stats s' = trackRequestEnd True (stats s)
         \<and> requestsSuccessful (stats s') = requestsSuccessful (stats s) + 1
         \<and> requestsFailed (stats s') = 0)"
proof -
  have z: "requestsFailed (stats s) = 0"
    using run_failed [OF assms] by (simp add: gstate0_def stats0_def)
  have "stats s' = trackRequestEnd True (stats s)" if "handler_finish i s = Some s'" for i s'
    using that by (auto simp: handler_finish_def split: if_splits recv_state.splits)
  then show ?thesis
    using z by (auto simp: getStats_def trackRequestEnd_def)
qed

theorem C10_requests_failed_zero_witness:
  "case run default_config codec_ex synth_run gstate0 of
     None \<Rightarrow> False
   | Some s \<Rightarrow>
       chan_recvq (respChans s 0) = Got (synthesized_error ''Failed to upload file: boom'')
       \<and> Requests_Failed (getStats (stats s)) = 0
       \<and> (case handler_finish 0 s of
            None \<Rightarrow> False
          | Some s' \<Rightarrow> requestsSuccessful (stats s') = 1 \<and> requestsFailed (stats s') = 0)"
proof -
  from synth_facts obtain s s' where s: "run default_config codec_ex synth_run gstate0 = Some s"
    and f: "chan_recvq (respChans s 0) = Got (synthesized_error ''Failed to upload file: boom'')"
      "requestsSuccessful (stats s) = 0"
    and s': "handler_finish 0 s = Some s'"
    by auto
  have a: "requestsSuccessful (stats s') = requestsSuccessful (stats s) + 1"
    and b: "requestsFailed (stats s') = 0"
    and c: "Requests_Failed (getStats (stats s)) = 0"
    using C10_requests_failed_zero [OF s] s' by blast+
  have "requestsSuccessful (stats s') = 1" using a f(2) by simp
  then show ?thesis
    using s f(1) s' b c by simp
qed

subsection \<open>Shutdown\<close>

lemma step_terminated:
  assumes "j < length (workers s)" "\<not> w_running (workers s ! j)" "step cfg cdc a s = Some s'"
  shows "j < length (workers s') \<and> \<not> w_running (workers s' ! j)"
proof (cases a)
  case (Request now r draw)
  then have "s' = handler_start cdc now r draw s" using assms(3) by simp
  then show ?thesis using assms(1,2)
    by (auto simp: handler_start_def Let_def nth_append split: sum.splits option.splits)
next
  case (HandlerSend i)
  then show ?thesis using assms
    by (auto simp: handler_send_def split: if_splits handler_pc.splits send_result.splits)
next
  case (HandlerRecv i)
  then show ?thesis using assms by (auto simp: handler_recv_def split: if_splits)
next
  case (HandlerFinish i)
  then show ?thesis using assms
    by (auto simp: handler_finish_def split: if_splits recv_state.splits)
next
  case (WorkerRecv j' now)
  then show ?thesis using assms
    by (auto simp: worker_recv_def nth_list_update split: if_splits list.splits prod.splits)
next
  case (WorkerTick j' now)
  then show ?thesis using assms
    by (auto simp: worker_tick_def nth_list_update split: if_splits prod.splits)
next
  case (WorkerShutdown j')
  then show ?thesis using assms
    by (auto simp: worker_shutdown_def nth_list_update split: if_splits)
next
  case MainShutdown
  then show ?thesis using assms by (auto simp: main_shutdown_def split: if_splits)
next
  case (RunTask up payload i)
  then show ?thesis using assms run_task_frame [of cdc up payload i s s'] by auto
qed

lemma run_terminated:
  "j < length (workers s) \<Longrightarrow> \<not> w_running (workers s ! j) \<Longrightarrow> run cfg cdc as s = Some s' \<Longrightarrow>
   j < length (workers s') \<and> \<not> w_running (workers s' ! j)"
proof (induction as arbitrary: s)
  case Nil
  then show ?case by simp
next
  case (Cons a as)
  then obtain s1 where s1: "step cfg cdc a s = Some s1" "run cfg cdc as s1 = Some s'"
    by (auto split: option.splits)
  from step_terminated [OF Cons.prems(1,2) s1(1)] Cons.IH s1(2) show ?case by blast
qed

lemma late_facts:
  "map_option (\<lambda>s''. map CustomID (chan_buf (laneChans s'' 1)))
     (Option.bind
        (Option.bind
           (run default_config codec_ex
              [Request 0 (post ''/v1/chat/completions'' ''Hi'') 7, HandlerSend 0, HandlerRecv 0,
               WorkerRecv 0 10, MainShutdown] gstate0)
           (worker_shutdown 0))
        (run default_config codec_ex
           [Request 20 (post ''/v1/chat/completions'' ''Aye'') 8, HandlerSend 1]))
   = Some [''req_8'']"
  by code_simp

text \<open>
  C6, as stated, fails: the handler never reads \<open>shutdownChan\<close>. After the broadcast a
  new request is enrolled like any other: its lane is created, a worker is started and
  the envelope is sent. And after a worker has handed over its final buffer, removed
  its lane and returned (\<open>late_run\<close>), the next request of the same fingerprint creates
  the lane anew and its envelope arrives there.
\<close>

theorem C6_counterexample:
  "map_option (\<lambda>s. (shutdown s, map w_running (workers s),
                     reqToBeBatchedMap s \<lparr>key_auth = ''Bearer k'', key_endpoint = ''/v1/chat/completions''\<rparr>,
                     map CustomID (chan_buf (laneChans s 0))))
     (run default_config codec_ex
        [MainShutdown, Request 0 (post ''/v1/chat/completions'' ''Hi'') 7, HandlerSend 0] gstate0)
   = Some (True, [True], Some 0, [''req_7''])
   \<and> map_option (\<lambda>s. (shutdown s, map w_running (workers s),
                     reqToBeBatchedMap s \<lparr>key_auth = ''Bearer k'', key_endpoint = ''/v1/chat/completions''\<rparr>,
                     map CustomID (chan_buf (laneChans s 1)), tasks s))
     (run default_config codec_ex late_run gstate0)
   = Some (True, [False, True], Some 1, [''req_8''],
           [ProcessBatch \<lparr>sl_bytes = ''req_7'' @ [CHR 0x0A], sl_worker = 0, sl_writes = 1\<rparr>
              ''Bearer k'' ''/v1/chat/completions'' [''req_7'']])"
  by code_simp

text \<open>
  C6, amended: enrollment is not gated by the shutdown signal: the handler's steps up to
  the start of a worker, and its send on the lane's channel, are the same whether or
  not the signal has been broadcast. A worker that takes its shutdown case has handed
  over its buffer if it was not empty and removed its lane from the registry, and from
  then on it has returned: in every later state it is not running and takes no case of
  its loop, so it receives no envelope.
\<close>

theorem C6_enrollment_ignores_shutdown:
  "handler_start cdc now r draw (s\<lparr>shutdown := b\<rparr>) = (handler_start cdc now r draw s)\<lparr>shutdown := b\<rparr>
   \<and> handler_send i (s\<lparr>shutdown := b\<rparr>) = map_option (\<lambda>s'. s'\<lparr>shutdown := b\<rparr>) (handler_send i s)
   \<and> (\<forall>s'. worker_shutdown j s = Some s' \<longrightarrow>
         reqToBeBatchedMap s' (w_key (workers s ! j)) = None
         \<and> tasks s' = tasks s @ map (task_of (w_key (workers s ! j)) j (w_writes (workers s ! j)))
                                   (opt_list (final_flush (w_local (workers s ! j))))
         \<and> (\<forall>as s''. run cfg cdc as s' = Some s'' \<longrightarrow>
               \<not> w_running (workers s'' ! j)
               \<and> worker_recv cfg cdc j t s'' = None
               \<and> worker_tick cfg j t s'' = None
               \<and> worker_shutdown j s'' = None))"
proof (intro conjI allI impI)
  show "handler_start cdc now r draw (s\<lparr>shutdown := b\<rparr>) = (handler_start cdc now r draw s)\<lparr>shutdown := b\<rparr>"
    by (simp add: handler_start_def Let_def split: sum.splits option.splits)
  show "handler_send i (s\<lparr>shutdown := b\<rparr>) = map_option (\<lambda>s'. s'\<lparr>shutdown := b\<rparr>) (handler_send i s)"
    by (simp add: handler_send_def split: handler_pc.splits send_result.splits)
next
  fix s'
  assume ws: "worker_shutdown j s = Some s'"
  then have j: "j < length (workers s)" and s': "s' = s\<lparr>reqToBeBatchedMap := (reqToBeBatchedMap s)(w_key (workers s ! j) := None),
                    workers := (workers s)[j := (workers s ! j)\<lparr>w_running := False\<rparr>],
                    tasks := tasks s @ map (task_of (w_key (workers s ! j)) j (w_writes (workers s ! j)))
                                          (opt_list (final_flush (w_local (workers s ! j))))\<rparr>"
    by (auto simp: worker_shutdown_def split: if_splits)
  show "reqToBeBatchedMap s' (w_key (workers s ! j)) = None" using s' by simp
  show "tasks s' = tasks s @ map (task_of (w_key (workers s ! j)) j (w_writes (workers s ! j)))
                                   (opt_list (final_flush (w_local (workers s ! j))))"
    using s' by simp
  have t: "j < length (workers s')" "\<not> w_running (workers s' ! j)"
    using s' j by simp_all
  fix as s''
  assume "run cfg cdc as s' = Some s''"
  from run_terminated [OF t this]
  have t'': "j < length (workers s'')" "\<not> w_running (workers s'' ! j)" by simp_all
  show "\<not> w_running (workers s'' ! j)" by (rule t'')
  show "worker_recv cfg cdc j t s'' = None" using t'' by (simp add: worker_recv_def)
  show "worker_tick cfg j t s'' = None" using t'' by (simp add: worker_tick_def)
  show "worker_shutdown j s'' = None" using t'' by (simp add: worker_shutdown_def)
qed

theorem C6_enrollment_ignores_shutdown_witness:
  "case run default_config codec_ex
          [Request 0 (post ''/v1/chat/completions'' ''Hi'') 7, HandlerSend 0, HandlerRecv 0,
           WorkerRecv 0 10, MainShutdown] gstate0 of
     None \<Rightarrow> False
   | Some s \<Rightarrow>
       (case worker_shutdown 0 s of
          None \<Rightarrow> False
        | Some s' \<Rightarrow>
            reqToBeBatchedMap s' (w_key (workers s ! 0)) = None
            \<and> (case run default_config codec_ex
                      [Request 20 (post ''/v1/chat/completions'' ''Aye'') 8, HandlerSend 1] s' of
                 None \<Rightarrow> False
               | Some s'' \<Rightarrow>
                   map CustomID (chan_buf (laneChans s'' 1)) = [''req_8'']
                   \<and> \<not> w_running (workers s'' ! 0)
                   \<and> worker_recv default_config codec_ex 0 0 s'' = None))"
proof -
  from late_facts obtain s s' s'' where
    s: "run default_config codec_ex
          [Request 0 (post ''/v1/chat/completions'' ''Hi'') 7, HandlerSend 0, HandlerRecv 0,
           WorkerRecv 0 10, MainShutdown] gstate0 = Some s"
    and s': "worker_shutdown 0 s = Some s'"
    and s'': "run default_config codec_ex
                [Request 20 (post ''/v1/chat/completions'' ''Aye'') 8, HandlerSend 1] s' = Some s''"
    and b: "map CustomID (chan_buf (laneChans s'' 1)) = [''req_8'']"
    by (auto simp: bind_eq_Some_conv)
  have "reqToBeBatchedMap s' (w_key (workers s ! 0)) = None"
    and "\<not> w_running (workers s'' ! 0)"
    and "worker_recv default_config codec_ex 0 0 s'' = None"
    using C6_enrollment_ignores_shutdown [where s = s and j = 0 and cfg = default_config
        and cdc = codec_ex and t = 0]
      s' s'' by blast+
  then show ?thesis
    using s s' s'' b by simp
qed

subsection \<open>Pending channels\<close>

text \<open>
  C4, as stated, fails: the handler makes its channel with \<open>make(chan interface{})\<close>,
  of capacity 0, and the deliverers send with a plain \<open>ch <- v\<close>: on the channel of a
  handler that is not yet in its receive the send blocks.
\<close>

theorem C4_counterexample:
  "map_option (\<lambda>s. (responseChanMap s ''req_7'', map h_pc (handlers s),
                     chan_cap (respChans s 0),
                     chan_send (respChans s 0) (Str ''x'') = SendBlocks))
     (run default_config codec_ex
        [Request 0 (post ''/v1/chat/completions'' ''Hi'') 7] gstate0)
   = Some (Some 0, [AtSend 0], 0, True)"
  by code_simp

text \<open>
  C4, amended: the channel registered for a request has capacity 0. The delivery of a
  result line to a registered id is a send on that channel followed by \<open>close\<close>: when
  the handler is in its receive the value is handed over, the channel is closed and
  the id leaves the set of outstanding ids; while the handler is not yet in its receive
  the send blocks. The delivery to an id that is not registered changes nothing.
\<close>

theorem C4_unbuffered_delivery:
  "(rq_Method r = ''POST'' \<and> rq_Body r = Inr body \<and> json_Unmarshal_body cdc body = Some bodyMap \<longrightarrow>
      responseChanMap (handler_start cdc now r draw s) (customID_of draw) = Some (length (handlers s))
      \<and> respChans (handler_start cdc now r draw s) (length (handlers s)) = make_chan 0
      \<and> chan_cap (respChans (handler_start cdc now r draw s) (length (handlers s))) = 0)
   \<and> (line \<noteq> [] \<and> unmarshal line = Some rr \<longrightarrow>
        (responseChanMap s (rr_CustomID rr) = None \<longrightarrow>
           processLines unmarshal [line] ids s = (Done, s, ids))
        \<and> (\<forall>a. responseChanMap s (rr_CustomID rr) = Some a \<longrightarrow>
              (awaiting_chan (respChans s a) \<longrightarrow>
                 processLines unmarshal [line] ids s =
                   (Done, s\<lparr>respChans := (respChans s)(a := handed_over (line_value rr) (respChans s a))\<rparr>,
                    removeAll (rr_CustomID rr) ids))
              \<and> (respChans s a = make_chan 0 \<longrightarrow>
                   processLines unmarshal [line] ids s = (Blocked, s, ids))))"
proof (intro conjI impI allI)
  assume "rq_Method r = ''POST'' \<and> rq_Body r = Inr body \<and> json_Unmarshal_body cdc body = Some bodyMap"
  then show "responseChanMap (handler_start cdc now r draw s) (customID_of draw) = Some (length (handlers s))"
    and "respChans (handler_start cdc now r draw s) (length (handlers s)) = make_chan 0"
    and "chan_cap (respChans (handler_start cdc now r draw s) (length (handlers s))) = 0"
    by (simp_all add: handler_start_def Let_def make_chan_def split: option.splits)
next
  assume l: "line \<noteq> [] \<and> unmarshal line = Some rr"
  {
    assume "responseChanMap s (rr_CustomID rr) = None"
    then show "processLines unmarshal [line] ids s = (Done, s, ids)"
      using l by simp
  }
  fix a
  assume a: "responseChanMap s (rr_CustomID rr) = Some a"
  {
    assume "awaiting_chan (respChans s a)"
    then show "processLines unmarshal [line] ids s =
        (Done, s\<lparr>respChans := (respChans s)(a := handed_over (line_value rr) (respChans s a))\<rparr>,
         removeAll (rr_CustomID rr) ids)"
      using l a
      by (simp add: send_and_close_def chan_send_def chan_close_def awaiting_chan_def handed_over_def)
  }
  {
    assume "respChans s a = make_chan 0"
    then show "processLines unmarshal [line] ids s = (Blocked, s, ids)"
      using l a by (simp add: send_and_close_def chan_send_def make_chan_def)
  }
qed

theorem C4_unbuffered_delivery_witness:
  "chan_cap (respChans (handler_start codec_ex 0 (post ''/v1/chat/completions'' ''Hi'') 7 gstate0) 0) = 0
   \<and> responseChanMap (handler_start codec_ex 0 (post ''/v1/chat/completions'' ''Hi'') 7 gstate0)
        ''req_7'' = Some 0
   \<and> responseChanMap gstate0 ''req_7'' = None
   \<and> processLines (json_Unmarshal_line codec_ex) [''req_7''] [''req_7''] gstate0
        = (Done, gstate0, [''req_7''])
   \<and> responseChanMap two_parked ''req_7'' = Some 0
   \<and> awaiting_chan (respChans two_parked 0)
   \<and> processLines (json_Unmarshal_line codec_ex) [''req_7''] [''req_7'', ''req_8''] two_parked
        = (Done,
           two_parked\<lparr>respChans := (respChans two_parked)
                         (0 := handed_over (Str ''req_7'') (respChans two_parked 0))\<rparr>,
           [''req_8''])"
proof -
  let ?rr = "\<lparr>rr_CustomID = ''req_7'', rr_Body = Str ''req_7'', rr_Error = None\<rparr>"
  have u: "json_Unmarshal_line codec_ex ''req_7'' = Some ?rr"
    by (simp add: codec_ex_def)
  have b: "rq_Method (post ''/v1/chat/completions'' ''Hi'') = ''POST''
      \<and> rq_Body (post ''/v1/chat/completions'' ''Hi'') = Inr ''Hi''
      \<and> json_Unmarshal_body codec_ex ''Hi'' = Some (MapSI [(''prompt'', Str ''Hi'')])"
    by (simp add: post_def codec_ex_def)
  have id7: "customID_of 7 = ''req_7''" by code_simp
  have h0: "length (handlers gstate0) = 0" "responseChanMap gstate0 ''req_7'' = None"
    by (simp_all add: gstate0_def)
  have tp: "responseChanMap two_parked ''req_7'' = Some 0" "awaiting_chan (respChans two_parked 0)"
    by (simp_all add: two_parked_facts awaiting_chan_def)
  have lv: "line_value ?rr = Str ''req_7''" by (simp add: line_value_def)
  note t0 = C4_unbuffered_delivery [where r = "post ''/v1/chat/completions'' ''Hi''"
      and body = "''Hi''" and cdc = codec_ex and bodyMap = "MapSI [(''prompt'', Str ''Hi'')]"
      and now = 0 and draw = 7 and s = gstate0 and line = "''req_7''"
      and unmarshal = "json_Unmarshal_line codec_ex" and rr = ?rr and ids = "[''req_7'']"]
  note t1 = C4_unbuffered_delivery [where r = "post ''/v1/chat/completions'' ''Hi''"
      and body = "''Hi''" and cdc = codec_ex and bodyMap = "MapSI [(''prompt'', Str ''Hi'')]"
      and now = 0 and draw = 7 and s = two_parked and line = "''req_7''"
      and unmarshal = "json_Unmarshal_line codec_ex" and rr = ?rr and ids = "[''req_7'', ''req_8'']"]
  show ?thesis
    using t0 t1 u b id7 h0 tp lv by (simp add: make_chan_def del: processLines.simps)
qed

end
